theory Spec2Isabelle
  imports Main "HOL-Library.AList"
begin

section \<open>Uptime monitor: data model\<close>

text \<open>
  JavaScript numbers that the monitor handles (milliseconds since the epoch, counts,
  seconds of configuration) are integers here. An ISO timestamp string is the integer
  \<open>new Date(s).getTime()\<close> it parses to. An optional field of a configuration object is
  an \<open>option\<close>; \<open>None\<close> is \<open>undefined\<close>.
\<close>

text \<open>\<open>x || d\<close> on an optional number: \<open>undefined\<close> and \<open>0\<close> are falsy.\<close>

definition jsOr :: "int option \<Rightarrow> int \<Rightarrow> int" where
  "jsOr x d = (case x of None \<Rightarrow> d | Some v \<Rightarrow> if v = 0 then d else v)"

text \<open>\<open>x || d\<close> on an optional string: \<open>undefined\<close> and the empty string are falsy.\<close>

definition jsOrStr :: "string option \<Rightarrow> string \<Rightarrow> string" where
  "jsOrStr x d = (case x of None \<Rightarrow> d | Some v \<Rightarrow> if v = [] then d else v)"

text \<open>\<open>x || d\<close> on an optional array: only \<open>undefined\<close> is falsy, the empty array is not.\<close>

definition jsOrList :: "'a list option \<Rightarrow> 'a list \<Rightarrow> 'a list" where
  "jsOrList x d = (case x of None \<Rightarrow> d | Some v \<Rightarrow> v)"

text \<open>\<open>String.prototype.includes\<close>.\<close>

fun includesStr :: "string \<Rightarrow> string \<Rightarrow> bool" where
  "includesStr [] needle = (needle = [])"
| "includesStr (c # cs) needle =
     (take (length needle) (c # cs) = needle \<or> includesStr cs needle)"

subsection \<open>config.ts\<close>

record UrlConfig =
  name :: string
  category :: "string option"
  url :: string
  delay :: "int option"
  http_method :: "string option"
  timeout :: "int option"
  expected_status :: "int list option"
  expected_content :: "string option"
  response_time_threshold :: "int option"
  check_ssl :: "bool option"

record AlertsConfig =
  retry_count :: "int option"
  retry_delay :: "int option"
  alert_on_recovery :: "bool option"
  cooldown_period :: "int option"

record SettingsConfig =
  default_timeout :: "int option"
  user_agent :: "string option"
  follow_redirects :: "bool option"
  max_redirects :: "int option"

record StorageConfig =
  path :: "string option"
  retention_days :: "int option"

record StatusPageConfig =
  enabled :: "bool option"
  title :: "string option"
  incident_retention_days :: "int option"

record Config =
  settings :: "SettingsConfig option"
  email :: "string list option"
  alerts :: "AlertsConfig option"
  urls :: "UrlConfig list option"
  storage :: "StorageConfig option"
  status_page :: "StatusPageConfig option"

text \<open>\<open>config.alerts || {}\<close> and \<open>config.settings || {}\<close>.\<close>

definition noAlerts :: AlertsConfig where
  "noAlerts = \<lparr>retry_count = None, retry_delay = None, alert_on_recovery = None,
     cooldown_period = None\<rparr>"

definition noSettings :: SettingsConfig where
  "noSettings = \<lparr>default_timeout = None, user_agent = None, follow_redirects = None,
     max_redirects = None\<rparr>"

definition alertsOf :: "Config \<Rightarrow> AlertsConfig" where
  "alertsOf config = (case alerts config of None \<Rightarrow> noAlerts | Some a \<Rightarrow> a)"

definition settingsOf :: "Config \<Rightarrow> SettingsConfig" where
  "settingsOf config = (case settings config of None \<Rightarrow> noSettings | Some s \<Rightarrow> s)"

subsection \<open>types.ts\<close>

record SslInfo =
  validFrom :: string
  validTo :: string
  daysRemaining :: int

record CheckResult =
  r_name :: string
  r_url :: string
  success :: bool
  statusCode :: "int option"
  responseTime :: "int option"
  error :: "string option"
  sslInfo :: "SslInfo option"
  timestamp :: int

record StoredCheck =
  c_timestamp :: int
  c_success :: bool
  c_responseTime :: "int option"
  c_statusCode :: "int option"
  c_error :: "string option"

section \<open>checker.ts: one probe\<close>

record RequestOptions =
  o_method :: string
  o_timeout :: int
  followRedirects :: bool
  maxRedirects :: int
  userAgent :: string
  checkSsl :: "bool option"

record HttpResponse =
  h_statusCode :: int
  body :: string
  h_sslInfo :: "SslInfo option"

text \<open>
  What the world gives one call of \<open>checkUrl\<close>: the clock read into \<open>startTime\<close>, the
  clock read into the result's timestamp, the settled promise of \<open>makeRequest\<close> (\<open>Inl\<close> the
  message of the error it rejects with, \<open>Inr\<close> the response it resolves with), and the
  clock read when that promise has settled. A call whose promise never settles is not
  among these: \<open>makeRequestOn\<close> and \<open>checkUrlOn\<close> below cover it.
\<close>

record ProbeEnv =
  startTime :: int
  stampTime :: int
  makeRequest :: "string \<Rightarrow> RequestOptions \<Rightarrow> string + HttpResponse"
  endTime :: int

definition requestOptions :: "UrlConfig \<Rightarrow> SettingsConfig \<Rightarrow> RequestOptions" where
  "requestOptions urlConfig globalSettings =
     \<lparr>o_method = jsOrStr (http_method urlConfig) ''GET'',
      o_timeout = jsOr (timeout urlConfig) (jsOr (default_timeout globalSettings) 30) * 1000,
      followRedirects = (follow_redirects globalSettings \<noteq> Some False),
      maxRedirects = jsOr (max_redirects globalSettings) 5,
      userAgent = jsOrStr (user_agent globalSettings) ''Uptime-Monitor/1.0'',
      checkSsl = check_ssl urlConfig\<rparr>"

text \<open>Decimal digits of a number inside an error message.\<close>

fun digitsOf :: "nat \<Rightarrow> nat \<Rightarrow> string" where
  "digitsOf 0 n = []"
| "digitsOf (Suc fuel) n =
     (if n < 10 then [char_of (48 + n)]
      else digitsOf fuel (n div 10) @ [char_of (48 + n mod 10)])"

definition showInt :: "int \<Rightarrow> string" where
  "showInt i = (if i < 0 then ''-'' @ digitsOf (Suc (nat (- i))) (nat (- i))
                else digitsOf (Suc (nat i)) (nat i))"

definition checkUrl :: "UrlConfig \<Rightarrow> SettingsConfig \<Rightarrow> ProbeEnv \<Rightarrow> CheckResult" where
  "checkUrl urlConfig globalSettings env =
     (let result = \<lparr>r_name = name urlConfig, r_url = url urlConfig, success = False,
            statusCode = None, responseTime = None, error = None, sslInfo = None,
            timestamp = stampTime env\<rparr>
      in case makeRequest env (url urlConfig) (requestOptions urlConfig globalSettings) of
           Inl message \<Rightarrow>
             result\<lparr>responseTime := Some (endTime env - startTime env),
                    error := Some message\<rparr>
         | Inr response \<Rightarrow>
             (let rt = endTime env - startTime env;
                  result = result\<lparr>statusCode := Some (h_statusCode response),
                             responseTime := Some rt, sslInfo := h_sslInfo response\<rparr>;
                  expectedStatus = jsOrList (expected_status urlConfig) [200]
              in if h_statusCode response \<notin> set expectedStatus then
                   result\<lparr>error := Some (''Unexpected status code: '' @
                                            showInt (h_statusCode response))\<rparr>
                 else if (case expected_content urlConfig of
                            None \<Rightarrow> False
                          | Some content \<Rightarrow>
                              content \<noteq> [] \<and> \<not> includesStr (body response) content) then
                   result\<lparr>error := Some (''Expected content not found: \"'' @
                                    the (expected_content urlConfig) @ ''\"'')\<rparr>
                 else if (case response_time_threshold urlConfig of
                            None \<Rightarrow> False
                          | Some threshold \<Rightarrow> threshold \<noteq> 0 \<and> rt > threshold) then
                   result\<lparr>error := Some (''Response time '' @ showInt rt @
                                    ''ms exceeds threshold '' @
                                    showInt (the (response_time_threshold urlConfig)) @
                                    ''ms'')\<rparr>
                 else result\<lparr>success := True\<rparr>))"

subsection \<open>The request\<close>

text \<open>
  \<open>checkUrl\<close> above takes the settled promise of \<open>makeRequest\<close> as given. \<open>makeRequest\<close>
  itself is modelled here over a network that answers each request: \<open>urlOf\<close> is
  \<open>new URL(urlString)\<close> (none when it throws, else whether the protocol is \<open>https:\<close>),
  \<open>exchangeAt\<close> is what happens to the request of a hop (the number of redirects followed
  so far): an \<open>error\<close> event or an exception of \<open>transport.request\<close>, a \<open>timeout\<close> event, or a
  response read to its end, and \<open>resolveUrl\<close> is \<open>new URL(location, urlString).href\<close>,
  none when it throws. The promise resolves, rejects, or never settles: the exception of
  \<open>new URL(location, urlString)\<close> is thrown inside the listener of \<open>end\<close>, where neither
  the promise nor the \<open>try\<close> of \<open>checkUrl\<close> catches it.
\<close>

record RawResponse =
  w_statusCode :: int
  w_location :: "string option"
  w_body :: string
  w_cert :: "SslInfo option"

datatype exchange = Errors string | TimesOut | Responds RawResponse

record Network =
  urlOf :: "string \<Rightarrow> bool option"
  exchangeAt :: "int \<Rightarrow> string \<Rightarrow> RequestOptions \<Rightarrow> exchange"
  resolveUrl :: "string \<Rightarrow> string \<Rightarrow> string option"

datatype requestOutcome = Resolves HttpResponse | Rejects string | Uncaught string

function makeRequestOn ::
  "Network \<Rightarrow> string \<Rightarrow> RequestOptions \<Rightarrow> int \<Rightarrow> requestOutcome" where
  "makeRequestOn net urlString options redirectCount =
     (case urlOf net urlString of
        None \<Rightarrow> Rejects ''Invalid URL''
      | Some isHttps \<Rightarrow>
          (case exchangeAt net redirectCount urlString options of
             Errors message \<Rightarrow> Rejects message
           | TimesOut \<Rightarrow>
               Rejects (''Request timeout after '' @ showInt (o_timeout options) @ ''ms'')
           | Responds res \<Rightarrow>
               if w_statusCode res \<in> set [301, 302, 303, 307, 308] \<and> followRedirects options
               then
                 (if redirectCount \<ge> maxRedirects options then
                    Rejects (''Too many redirects (max: '' @ showInt (maxRedirects options) @ '')'')
                  else
                    (case w_location res of
                       None \<Rightarrow> Rejects ''Redirect without location header''
                     | Some location \<Rightarrow>
                         if location = [] then Rejects ''Redirect without location header''
                         else
                           (case resolveUrl net location urlString of
                              None \<Rightarrow> Uncaught ''Invalid URL''
                            | Some redirectUrl \<Rightarrow>
                                makeRequestOn net redirectUrl options (redirectCount + 1))))
               else
                 Resolves \<lparr>h_statusCode = w_statusCode res, body = w_body res,
                            h_sslInfo = (if isHttps \<and> checkSsl options = Some True
                                         then w_cert res else None)\<rparr>))"
  by pat_completeness auto
termination
  by (relation "measure (\<lambda>(net, urlString, options, redirectCount).
                   nat (maxRedirects options - redirectCount))") auto

declare makeRequestOn.simps [simp del]

text \<open>
  One call of \<open>checkUrl\<close> on a network, with its three clock readings: no result when the
  promise of \<open>makeRequest\<close> never settles.
\<close>

record CallEnv =
  network :: Network
  startedAt :: int
  stampedAt :: int
  settledAt :: int

definition settled :: "requestOutcome \<Rightarrow> (string + HttpResponse) option" where
  "settled outcome =
     (case outcome of
        Resolves response \<Rightarrow> Some (Inr response)
      | Rejects message \<Rightarrow> Some (Inl message)
      | Uncaught message \<Rightarrow> None)"

definition checkUrlOn :: "UrlConfig \<Rightarrow> SettingsConfig \<Rightarrow> CallEnv \<Rightarrow> CheckResult option" where
  "checkUrlOn urlConfig globalSettings call =
     (case settled (makeRequestOn (network call) (url urlConfig)
                      (requestOptions urlConfig globalSettings) 0) of
        None \<Rightarrow> None
      | Some answer \<Rightarrow>
          Some (checkUrl urlConfig globalSettings
                  \<lparr>startTime = startedAt call, stampTime = stampedAt call,
                   makeRequest = (\<lambda>u opts. answer), endTime = settledAt call\<rparr>))"

section \<open>index.ts: the retry-gated check\<close>

datatype effect = Probe | Sleep int

text \<open>
  The \<open>while\<close> loop of \<open>checkWithRetry\<close>. \<open>probe k\<close> is what the k-th call of \<open>checkUrl\<close> in
  this cycle returns; \<open>result\<close> is the variable of that name, \<open>None\<close> while unassigned.
  The trace lists the transport invocations and the sleeps in the order they happen.
\<close>

function retryLoop ::
  "(nat \<Rightarrow> CheckResult) \<Rightarrow> int \<Rightarrow> int \<Rightarrow> int \<Rightarrow> CheckResult option \<Rightarrow> effect list
     \<Rightarrow> CheckResult option \<times> effect list" where
  "retryLoop probe retryCount retryDelay attempts result trace =
     (if attempts < retryCount then
        (let r = probe (nat attempts); trace = trace @ [Probe]
         in if success r then (Some r, trace)
            else (let attempts = attempts + 1
                  in if attempts < retryCount
                     then retryLoop probe retryCount retryDelay attempts (Some r)
                            (trace @ [Sleep retryDelay])
                     else retryLoop probe retryCount retryDelay attempts (Some r) trace))
      else (result, trace))"
  by pat_completeness auto
termination
  by (relation "measure (\<lambda>(probe, retryCount, retryDelay, attempts, result, trace).
                   nat (retryCount - attempts))") auto

definition checkWithRetry ::
  "UrlConfig \<Rightarrow> Config \<Rightarrow> (nat \<Rightarrow> ProbeEnv) \<Rightarrow> CheckResult option \<times> effect list" where
  "checkWithRetry urlConfig config envs =
     (let alerts = alertsOf config;
          retryCount = jsOr (retry_count alerts) 3;
          retryDelay = jsOr (retry_delay alerts) 10 * 1000
      in retryLoop (\<lambda>k. checkUrl urlConfig (settingsOf config) (envs k))
           retryCount retryDelay 0 None [])"

declare retryLoop.simps [simp del]

section \<open>store.ts: the history store\<close>

text \<open>
  \<open>data.checks\<close> is an object from target names to arrays: an association list with one
  entry per key, in insertion order.
\<close>

type_synonym Store = "(string \<times> StoredCheck list) list"

definition dayMs :: int where
  "dayMs = 24 * 60 * 60 * 1000"

text \<open>
  \<open>data.checks[name] || []\<close> for a name that is not the name of a member that a plain
  object inherits from \<open>Object.prototype\<close>: the log of the name, or the empty list.
\<close>

definition getChecks :: "string \<Rightarrow> Store \<Rightarrow> StoredCheck list" where
  "getChecks nm checks = (case map_of checks nm of None \<Rightarrow> [] | Some cs \<Rightarrow> cs)"

text \<open>
  \<open>data.checks\<close> is a plain object, so \<open>data.checks[name]\<close> also finds the members
  inherited from \<open>Object.prototype\<close> when the object has no own key of that name: the
  functions below, each with its \<open>length\<close>, and \<open>__proto__\<close>, which is the prototype
  object itself. All of them are truthy, so \<open>|| []\<close> does not replace them.
\<close>

datatype inheritedMember = InheritedFunction nat | InheritedObject

definition objectPrototype :: "(string \<times> inheritedMember) list" where
  "objectPrototype =
     [(''constructor'', InheritedFunction 1),
      (''__defineGetter__'', InheritedFunction 2),
      (''__defineSetter__'', InheritedFunction 2),
      (''hasOwnProperty'', InheritedFunction 1),
      (''__lookupGetter__'', InheritedFunction 1),
      (''__lookupSetter__'', InheritedFunction 1),
      (''isPrototypeOf'', InheritedFunction 1),
      (''propertyIsEnumerable'', InheritedFunction 1),
      (''toString'', InheritedFunction 0),
      (''valueOf'', InheritedFunction 0),
      (''toLocaleString'', InheritedFunction 0),
      (''__proto__'', InheritedObject)]"

datatype lookup = Checks "StoredCheck list" | Inherited inheritedMember

definition lookupChecks :: "string \<Rightarrow> Store \<Rightarrow> lookup" where
  "lookupChecks nm checks =
     (case map_of checks nm of
        Some cs \<Rightarrow> Checks cs
      | None \<Rightarrow>
          (case map_of objectPrototype nm of
             Some member \<Rightarrow> Inherited member
           | None \<Rightarrow> Checks []))"

text \<open>The exception of reading a member of \<open>undefined\<close> or of iterating a value that is
  not iterable.\<close>

datatype error = TypeError

text \<open>The body of the loop of \<open>prune\<close> for one key.\<close>

definition pruneKey :: "int \<Rightarrow> string \<Rightarrow> Store \<Rightarrow> Store" where
  "pruneKey cutoff nm checks =
     (case map_of checks nm of
        None \<Rightarrow> checks
      | Some cs \<Rightarrow>
          (let kept = filter (\<lambda>check. c_timestamp check > cutoff) cs;
               checks = AList.update nm kept checks
           in if length kept = 0 then AList.delete nm checks else checks))"

definition prune :: "int \<Rightarrow> int \<Rightarrow> Store \<Rightarrow> Store" where
  "prune now retentionDays checks =
     (let cutoff = now - retentionDays * dayMs
      in fold (pruneKey cutoff) (map fst checks) checks)"

definition storedOf :: "CheckResult \<Rightarrow> StoredCheck" where
  "storedOf result =
     \<lparr>c_timestamp = timestamp result, c_success = success result,
      c_responseTime = responseTime result, c_statusCode = statusCode result,
      c_error = error result\<rparr>"

text \<open>
  \<open>recordCheck\<close>, for a name that is not the name of an inherited member (for such a name
  \<open>data.checks[name]\<close> is truthy, no array is created, and \<open>push\<close> is not a function).
\<close>

definition recordCheck :: "string \<Rightarrow> CheckResult \<Rightarrow> int \<Rightarrow> int \<Rightarrow> Store \<Rightarrow> Store" where
  "recordCheck nm result now retentionDays checks =
     (let checks = (if map_of checks nm = None then AList.update nm [] checks else checks);
          checks = AList.update nm (getChecks nm checks @ [storedOf result]) checks
      in prune now retentionDays checks)"

subsection \<open>Hourly averages\<close>

record Bucket =
  total :: int
  count :: int
  upCount :: int

record HourlyAverage =
  hour :: int
  avgResponseTime :: "int option"
  uptime :: "int option"
  checkCount :: int

definition hourMs :: int where
  "hourMs = 60 * 60 * 1000"

text \<open>\<open>Math.floor(t / hourMs) * hourMs\<close>.\<close>

definition hourStartOf :: "int \<Rightarrow> int" where
  "hourStartOf t = (t div hourMs) * hourMs"

text \<open>
  The quotients are numbers of JavaScript, double-precision floating point. A double is
  kept as an exact fraction \<open>(n, d)\<close> whose denominator is a power of two.
  \<open>nearestDouble p q\<close> is the double nearest to \<open>p / q\<close> for positive \<open>p\<close> and \<open>q\<close>, a tie
  going to the even significand: \<open>l\<close> is the exponent of the quotient
  (\<open>2 ^ l \<le> p / q < 2 ^ (l + 1)\<close>) and \<open>m\<close> its significand of 53 bits. \<open>jsDivide\<close> is the
  operator \<open>/\<close> on two integers below \<open>2 ^ 53\<close>, the divisor positive; \<open>jsTimes\<close> is the
  operator \<open>*\<close> of a double and a positive integer; \<open>mathRound\<close> is \<open>Math.round\<close>, which
  rounds a half towards plus infinity.
\<close>

function bitLength :: "int \<Rightarrow> nat" where
  "bitLength n = (if n \<le> 0 then 0 else Suc (bitLength (n div 2)))"
  by pat_completeness auto
termination
  by (relation "measure nat") auto

declare bitLength.simps [simp del]

definition roundHalfEven :: "int \<Rightarrow> int \<Rightarrow> int" where
  "roundHalfEven p q =
     (let d = p div q; r = p mod q
      in if 2 * r < q then d else if q < 2 * r then d + 1 else if even d then d else d + 1)"

definition nearestDouble :: "int \<Rightarrow> int \<Rightarrow> int \<times> int" where
  "nearestDouble p q =
     (let e = int (bitLength p) - int (bitLength q);
          l = (if q * 2 ^ nat e \<le> p * 2 ^ nat (- e) then e else e - 1);
          k = 52 - l;
          m = roundHalfEven (p * 2 ^ nat k) (q * 2 ^ nat (- k))
      in (m * 2 ^ nat (- k), 2 ^ nat k))"

definition jsDivide :: "int \<Rightarrow> int \<Rightarrow> int \<times> int" where
  "jsDivide a b =
     (if a = 0 then (0, 1)
      else if 0 < a then nearestDouble a b
      else (let (n, d) = nearestDouble (- a) b in (- n, d)))"

definition jsTimes :: "int \<times> int \<Rightarrow> int \<Rightarrow> int \<times> int" where
  "jsTimes x c =
     (let (n, d) = x
      in if n = 0 then (0, 1)
         else if 0 < n then nearestDouble (n * c) d
         else (let (n', d') = nearestDouble (- n * c) d in (- n', d')))"

definition mathRound :: "int \<times> int \<Rightarrow> int" where
  "mathRound x = (let (n, d) = x in (2 * n + d) div (2 * d))"

definition emptyBucket :: Bucket where
  "emptyBucket = \<lparr>total = 0, count = 0, upCount = 0\<rparr>"

definition addToBucket :: "StoredCheck \<Rightarrow> Bucket \<Rightarrow> Bucket" where
  "addToBucket check bucket =
     (let bucket = (case c_responseTime check of
                      None \<Rightarrow> bucket
                    | Some rt \<Rightarrow> bucket\<lparr>total := total bucket + rt,
                                          count := count bucket + 1\<rparr>)
      in if c_success check then bucket\<lparr>upCount := upCount bucket + 1\<rparr> else bucket)"

definition fillBucket :: "StoredCheck \<Rightarrow> (int \<times> Bucket) list \<Rightarrow> (int \<times> Bucket) list" where
  "fillBucket check buckets =
     (let hourStart = hourStartOf (c_timestamp check)
      in case map_of buckets hourStart of
           None \<Rightarrow> buckets
         | Some bucket \<Rightarrow> AList.update hourStart (addToBucket check bucket) buckets)"

definition toAverage :: "int \<Rightarrow> Bucket \<Rightarrow> HourlyAverage" where
  "toAverage hourStart bucket =
     \<lparr>hour = hourStart,
      avgResponseTime =
        (if count bucket > 0 then Some (mathRound (jsDivide (total bucket) (count bucket)))
         else None),
      uptime =
        (if count bucket > 0
         then Some (mathRound (jsTimes (jsDivide (upCount bucket) (count bucket)) 100))
         else None),
      checkCount = count bucket\<rparr>"

text \<open>
  \<open>getHourlyAverages\<close>. An inherited function has a \<open>length\<close>: when it is 0 the function
  passes for an empty log, otherwise, as for the prototype object, whose \<open>length\<close> is
  \<open>undefined\<close>, the loop \<open>for (const check of checks)\<close> throws, the value not being
  iterable.
\<close>

definition getHourlyAverages ::
  "string \<Rightarrow> int \<Rightarrow> int \<Rightarrow> Store \<Rightarrow> error + HourlyAverage list" where
  "getHourlyAverages nm hours now store =
     (case lookupChecks nm store of
        Inherited (InheritedFunction n) \<Rightarrow> if n = 0 then Inr [] else Inl TypeError
      | Inherited InheritedObject \<Rightarrow> Inl TypeError
      | Checks checks \<Rightarrow>
          if length checks = 0 then Inr []
          else
            (let buckets = fold (\<lambda>i. AList.update (hourStartOf (now - i * hourMs)) emptyBucket)
                             (map int [0..<nat hours]) [];
                 buckets = fold fillBucket checks buckets;
                 sortedKeys = sort (map fst buckets)
             in Inr (map (\<lambda>hourStart.
                            toAverage hourStart
                              (case map_of buckets hourStart of
                                 None \<Rightarrow> emptyBucket | Some bucket \<Rightarrow> bucket))
                       sortedKeys)))"

section \<open>status-page.ts: the incident ledger\<close>

record Incident =
  service :: string
  i_error :: "string option"
  i_timestamp :: int
  resolved :: bool
  resolvedAt :: "int option"

definition addIncident ::
  "string \<Rightarrow> string option \<Rightarrow> int \<Rightarrow> int \<Rightarrow> Incident list \<Rightarrow> Incident list" where
  "addIncident svc err ts now incidents =
     (let incidents = \<lparr>service = svc, i_error = err, i_timestamp = ts, resolved = False,
                       resolvedAt = None\<rparr> # incidents;
          retentionDays = 90;
          cutoff = now - retentionDays * dayMs
      in filter (\<lambda>i. i_timestamp i > cutoff) incidents)"

text \<open>\<open>find\<close> returns the first incident that matches; it is changed in place.\<close>

fun resolveIncident :: "string \<Rightarrow> int \<Rightarrow> Incident list \<Rightarrow> Incident list" where
  "resolveIncident svc now [] = []"
| "resolveIncident svc now (i # incidents) =
     (if service i = svc \<and> \<not> resolved i
      then i\<lparr>resolved := True, resolvedAt := Some now\<rparr> # incidents
      else i # resolveIncident svc now incidents)"

definition setRetentionHours :: "int \<Rightarrow> int \<Rightarrow> int" where
  "setRetentionHours hours retentionHours = hours"

section \<open>index.ts: one check cycle\<close>

datatype Status = StatusUp | StatusDown

record UrlState =
  us_status :: Status
  lastCheck :: int
  us_responseTime :: "int option"
  us_error :: "string option"
  us_sslInfo :: "SslInfo option"
  us_category :: "string option"
  us_name :: string

text \<open>
  A call made to notify.ts. \<open>NotifyDown\<close> and \<open>NotifySslExpiring\<close> carry the value of
  \<open>Date.now()\<close> that the guard of the call has just read: the time at which it fires.
\<close>

datatype Notification =
  NotifyDown string int
| NotifyUp string
| NotifySslExpiring string int

text \<open>
  The mutable state of the process: \<open>state\<close> of index.ts, \<open>data.checks\<close> and
  \<open>retentionDays\<close> of store.ts, \<open>statusData\<close> and \<open>retentionHours\<close> of status-page.ts, and
  the calls made to notify.ts so far, oldest first.
\<close>

record World =
  urlStates :: "string \<rightharpoonup> UrlState"
  lastAlert :: "string \<rightharpoonup> int"
  checks :: Store
  retentionDays :: int
  sd_title :: string
  lastUpdate :: "int option"
  services :: "UrlState list"
  incidents :: "Incident list"
  retentionHours :: int
  sent :: "Notification list"

text \<open>
  What the world gives one call of \<open>runCheck\<close>: the probes of its retry loop, and the
  values of the clock at each place that reads it, in program order.
\<close>

record CycleEnv =
  probes :: "nat \<Rightarrow> ProbeEnv"
  now_prune :: int
  now_downGuard :: int
  now_addIncident :: int
  now_downStamp :: int
  now_resolve :: int
  now_sslGuard :: int
  now_sslStamp :: int
  now_update :: int

definition SSL_WARNING_DAYS :: int where
  "SSL_WARNING_DAYS = 14"

definition sslAlertKey :: "string \<Rightarrow> string" where
  "sslAlertKey nm = ''ssl-'' @ nm"

definition wasDown :: "UrlState option \<Rightarrow> bool" where
  "wasDown prevState = (case prevState of None \<Rightarrow> False | Some s \<Rightarrow> us_status s = StatusDown)"

text \<open>
  Lines 90 to 106 of index.ts: the alerts of a status change, for a cycle that no other
  cycle interrupts while it awaits its notification. The guard, the notification, the
  incident and the stamp are then one step; \<open>resume\<close> below takes them apart.
\<close>

definition statusAlerts ::
  "UrlConfig \<Rightarrow> Config \<Rightarrow> UrlState option \<Rightarrow> CheckResult \<Rightarrow> CycleEnv \<Rightarrow> World \<Rightarrow> World" where
  "statusAlerts urlConfig config prevState result env w =
     (let nm = name urlConfig;
          alerts = alertsOf config;
          cooldown = jsOr (cooldown_period alerts) 300 * 1000
      in if \<not> success result \<and> \<not> wasDown prevState then
           (let lastAlertTime = jsOr (lastAlert w nm) 0
            in if now_downGuard env - lastAlertTime > cooldown then
                 w\<lparr>sent := sent w @ [NotifyDown nm (now_downGuard env)],
                   incidents := addIncident nm (error result) (timestamp result)
                                  (now_addIncident env) (incidents w),
                   lastAlert := (lastAlert w)(nm \<mapsto> now_downStamp env)\<rparr>
               else w)
         else if success result \<and> wasDown prevState then
           (if alert_on_recovery alerts \<noteq> Some False then
              w\<lparr>sent := sent w @ [NotifyUp nm],
                incidents := resolveIncident nm (now_resolve env) (incidents w)\<rparr>
            else w)
         else w)"

text \<open>Lines 108 to 120 of index.ts: the alert of an expiring certificate.\<close>

definition sslAlerts :: "UrlConfig \<Rightarrow> CheckResult \<Rightarrow> CycleEnv \<Rightarrow> World \<Rightarrow> World" where
  "sslAlerts urlConfig result env w =
     (case sslInfo result of
        None \<Rightarrow> w
      | Some info \<Rightarrow>
          if daysRemaining info \<le> SSL_WARNING_DAYS then
            (let lastSslAlert = jsOr (lastAlert w (sslAlertKey (name urlConfig))) 0;
                 sslCooldown = 24 * 60 * 60 * 1000
             in if now_sslGuard env - lastSslAlert > sslCooldown then
                  w\<lparr>sent := sent w @ [NotifySslExpiring (name urlConfig) (now_sslGuard env)],
                    lastAlert := (lastAlert w)(sslAlertKey (name urlConfig) \<mapsto>
                                                 now_sslStamp env)\<rparr>
                else w)
          else w)"

definition updateStatusPage :: "Config \<Rightarrow> int \<Rightarrow> World \<Rightarrow> World" where
  "updateStatusPage config now w =
     (let svcs = (case urls config of
                    None \<Rightarrow> []
                  | Some us \<Rightarrow> List.map_filter (\<lambda>urlConfig. urlStates w (name urlConfig)) us)
      in w\<lparr>sd_title := jsOrStr (case status_page config of
                                    None \<Rightarrow> None | Some sp \<Rightarrow> title sp) ''System Status'',
           services := svcs,
           lastUpdate := Some now\<rparr>)"

text \<open>
  \<open>runCheck\<close>, from its first line to its last without another cycle in between: the
  state that \<open>prevState\<close> was read from is the state that the rest of the cycle works
  on. When the retry loop returns \<open>undefined\<close>, reading \<open>result.timestamp\<close> in
  \<open>recordCheck\<close> throws before anything has been written.
\<close>

definition runCheck :: "UrlConfig \<Rightarrow> Config option \<Rightarrow> CycleEnv \<Rightarrow> World \<Rightarrow> error + World" where
  "runCheck urlConfig getConfig env w =
     (case getConfig of
        None \<Rightarrow> Inr w
      | Some config \<Rightarrow>
          (let nm = name urlConfig;
               prevState = urlStates w nm
           in case fst (checkWithRetry urlConfig config (probes env)) of
                None \<Rightarrow> Inl TypeError
              | Some result \<Rightarrow>
                  (let w = w\<lparr>checks := recordCheck nm result (now_prune env)
                                          (retentionDays w) (checks w)\<rparr>;
                       currentStatus = (if success result then StatusUp else StatusDown);
                       w = w\<lparr>urlStates := (urlStates w)(nm \<mapsto>
                               \<lparr>us_status = currentStatus, lastCheck = timestamp result,
                                us_responseTime = responseTime result,
                                us_error = error result, us_sslInfo = sslInfo result,
                                us_category = category urlConfig,
                                us_name = name urlConfig\<rparr>)\<rparr>;
                       w = statusAlerts urlConfig config prevState result env w;
                       w = sslAlerts urlConfig result env w
                   in Inr (updateStatusPage config (now_update env) w))))"

text \<open>
  The timers that \<open>scheduleChecks\<close> creates: for each configured target, its name and the
  interval of its timer in milliseconds.
\<close>

definition scheduleChecks :: "Config option \<Rightarrow> (string \<times> int) list" where
  "scheduleChecks getConfig =
     (case getConfig of
        None \<Rightarrow> []
      | Some config \<Rightarrow>
          (case urls config of
             None \<Rightarrow> []
           | Some us \<Rightarrow> map (\<lambda>urlConfig. (name urlConfig, jsOr (delay urlConfig) 60 * 1000)) us))"

subsection \<open>Sequences of check cycles\<close>

record Cycle =
  cy_target :: UrlConfig
  cy_config :: "Config option"
  cy_env :: CycleEnv

text \<open>
  Check cycles that run one after the other, each finished before the next starts. A
  cycle that throws ends the run: the rejection is not handled anywhere, and the world
  stays as it was. Cycles that overlap are runs of \<open>runSchedule\<close> below.
\<close>

fun runCycles :: "Cycle list \<Rightarrow> World \<Rightarrow> World" where
  "runCycles [] w = w"
| "runCycles (cy # cycles) w =
     (case runCheck (cy_target cy) (cy_config cy) (cy_env cy) w of
        Inl e \<Rightarrow> w
      | Inr w' \<Rightarrow> runCycles cycles w')"

text \<open>The state of a process that has just started, with the history it loaded.\<close>

definition startWorld :: "Store \<Rightarrow> int \<Rightarrow> World" where
  "startWorld loaded retention =
     \<lparr>urlStates = Map.empty, lastAlert = Map.empty, checks = loaded,
      retentionDays = retention, sd_title = ''System Status'', lastUpdate = None,
      services = [], incidents = [], retentionHours = setRetentionHours (retention * 24) 120,
      sent = []\<rparr>"

text \<open>The clock readings of one cycle of \<open>runCheck\<close>, in program order.\<close>

definition readings :: "CycleEnv \<Rightarrow> int list" where
  "readings env = [now_prune env, now_downGuard env, now_addIncident env, now_downStamp env,
     now_resolve env, now_sslGuard env, now_sslStamp env, now_update env]"

subsection \<open>Check cycles that overlap\<close>

text \<open>
  \<open>runCheck\<close> is an \<open>async\<close> function: it hands control back at each \<open>await\<close>, and the
  timer of \<open>scheduleChecks\<close> starts the next cycle of a target every \<open>delay\<close> seconds
  whether or not the last one has finished. A cycle in flight is a task: its target, the
  configuration and \<open>prevState\<close> it read when it started, and the \<open>await\<close> it is
  suspended at, with the \<open>result\<close> it holds from then on.
\<close>

datatype Stage =
  AwaitCheck
| AwaitNotifyDown CheckResult
| AwaitNotifyUp CheckResult
| AwaitNotifySsl
| Finished

record Task =
  t_target :: UrlConfig
  t_config :: Config
  t_env :: CycleEnv
  t_prevState :: "UrlState option"
  t_stage :: Stage

text \<open>Lines 65 to 70 of \<open>runCheck\<close>, up to \<open>await checkWithRetry\<close>; none when there is no
  configuration.\<close>

definition startCheck :: "UrlConfig \<Rightarrow> Config option \<Rightarrow> CycleEnv \<Rightarrow> World \<Rightarrow> Task option" where
  "startCheck urlConfig getConfig env w =
     (case getConfig of
        None \<Rightarrow> None
      | Some config \<Rightarrow>
          Some \<lparr>t_target = urlConfig, t_config = config, t_env = env,
                t_prevState = urlStates w (name urlConfig), t_stage = AwaitCheck\<rparr>)"

text \<open>
  Lines 108 to 122, entered after the alerts of a status change: up to
  \<open>await notifySslExpiring\<close> when the SSL alert fires, else to the end of the cycle.
\<close>

definition toSslAlert :: "Task \<Rightarrow> CheckResult \<Rightarrow> World \<Rightarrow> Task \<times> World" where
  "toSslAlert task result w =
     (let urlConfig = t_target task; env = t_env task;
          finished = (task\<lparr>t_stage := Finished\<rparr>,
                  updateStatusPage (t_config task) (now_update env) w)
      in case sslInfo result of
           None \<Rightarrow> finished
         | Some info \<Rightarrow>
             if daysRemaining info \<le> SSL_WARNING_DAYS then
               (let lastSslAlert = jsOr (lastAlert w (sslAlertKey (name urlConfig))) 0;
                    sslCooldown = 24 * 60 * 60 * 1000
                in if now_sslGuard env - lastSslAlert > sslCooldown then
                     (task\<lparr>t_stage := AwaitNotifySsl\<rparr>,
                      w\<lparr>sent := sent w @
                          [NotifySslExpiring (name urlConfig) (now_sslGuard env)]\<rparr>)
                   else finished)
             else finished)"

text \<open>
  One task runs from the \<open>await\<close> it is suspended at to its next \<open>await\<close>, or to its end.
  A notification is listed in \<open>sent\<close> when its function is called; the incident and the
  stamp that follow \<open>await notifyDown\<close> are written when the task is resumed from it.
\<close>

definition resume :: "Task \<Rightarrow> World \<Rightarrow> error + Task \<times> World" where
  "resume task w =
     (let urlConfig = t_target task; config = t_config task; env = t_env task;
          nm = name urlConfig; prevState = t_prevState task
      in case t_stage task of
           AwaitCheck \<Rightarrow>
             (case fst (checkWithRetry urlConfig config (probes env)) of
                None \<Rightarrow> Inl TypeError
              | Some result \<Rightarrow>
                  (let w = w\<lparr>checks := recordCheck nm result (now_prune env)
                                          (retentionDays w) (checks w)\<rparr>;
                       currentStatus = (if success result then StatusUp else StatusDown);
                       w = w\<lparr>urlStates := (urlStates w)(nm \<mapsto>
                               \<lparr>us_status = currentStatus, lastCheck = timestamp result,
                                us_responseTime = responseTime result,
                                us_error = error result, us_sslInfo = sslInfo result,
                                us_category = category urlConfig,
                                us_name = name urlConfig\<rparr>)\<rparr>;
                       alerts = alertsOf config;
                       cooldown = jsOr (cooldown_period alerts) 300 * 1000
                   in if \<not> success result \<and> \<not> wasDown prevState then
                        (let lastAlertTime = jsOr (lastAlert w nm) 0
                         in if now_downGuard env - lastAlertTime > cooldown then
                              Inr (task\<lparr>t_stage := AwaitNotifyDown result\<rparr>,
                                   w\<lparr>sent := sent w @ [NotifyDown nm (now_downGuard env)]\<rparr>)
                            else Inr (toSslAlert task result w))
                      else if success result \<and> wasDown prevState then
                        (if alert_on_recovery alerts \<noteq> Some False then
                           Inr (task\<lparr>t_stage := AwaitNotifyUp result\<rparr>,
                                w\<lparr>sent := sent w @ [NotifyUp nm]\<rparr>)
                         else Inr (toSslAlert task result w))
                      else Inr (toSslAlert task result w)))
         | AwaitNotifyDown result \<Rightarrow>
             Inr (toSslAlert task result
                    (w\<lparr>incidents := addIncident nm (error result) (timestamp result)
                                       (now_addIncident env) (incidents w),
                       lastAlert := (lastAlert w)(nm \<mapsto> now_downStamp env)\<rparr>))
         | AwaitNotifyUp result \<Rightarrow>
             Inr (toSslAlert task result
                    (w\<lparr>incidents := resolveIncident nm (now_resolve env) (incidents w)\<rparr>))
         | AwaitNotifySsl \<Rightarrow>
             Inr (task\<lparr>t_stage := Finished\<rparr>,
                  updateStatusPage config (now_update env)
                    (w\<lparr>lastAlert := (lastAlert w)(sslAlertKey nm \<mapsto> now_sslStamp env)\<rparr>))
         | Finished \<Rightarrow> Inr (task, w))"

text \<open>A task resumed \<open>n\<close> times with nothing in between.\<close>

fun resumeAll :: "nat \<Rightarrow> Task \<Rightarrow> World \<Rightarrow> error + World" where
  "resumeAll 0 task w = Inr w"
| "resumeAll (Suc n) task w =
     (case resume task w of
        Inl e \<Rightarrow> Inl e
      | Inr (task', w') \<Rightarrow> resumeAll n task' w')"

text \<open>
  A schedule lists, in the order of the event loop, the timer callbacks that start a
  cycle and the resumptions of the tasks in flight, numbered in the order they started.
  An exception ends the run, as in \<open>runCycles\<close>.
\<close>

datatype Event = Starts UrlConfig "Config option" CycleEnv | Resumes nat

record System =
  world :: World
  tasks :: "Task list"

fun runSchedule :: "Event list \<Rightarrow> System \<Rightarrow> System" where
  "runSchedule [] s = s"
| "runSchedule (Starts urlConfig getConfig env # events) s =
     (case startCheck urlConfig getConfig env (world s) of
        None \<Rightarrow> runSchedule events s
      | Some task \<Rightarrow> runSchedule events (s\<lparr>tasks := tasks s @ [task]\<rparr>))"
| "runSchedule (Resumes i # events) s =
     (if i < length (tasks s) then
        (case resume (tasks s ! i) (world s) of
           Inl e \<Rightarrow> s
         | Inr (task, w) \<Rightarrow> runSchedule events \<lparr>world = w, tasks = (tasks s)[i := task]\<rparr>)
      else runSchedule events s)"


section \<open>Inputs and notions used in the statements\<close>

text \<open>
  The effects of \<open>n\<close> transport invocations with a sleep of \<open>retryDelay\<close> milliseconds
  between one and the next.
\<close>

fun probeTrace :: "int \<Rightarrow> nat \<Rightarrow> effect list" where
  "probeTrace retryDelay 0 = []"
| "probeTrace retryDelay (Suc 0) = [Probe]"
| "probeTrace retryDelay (Suc (Suc n)) = Probe # Sleep retryDelay # probeTrace retryDelay (Suc n)"

text \<open>A configuration file without any section.\<close>

definition emptyConfig :: Config where
  "emptyConfig = \<lparr>settings = None, email = None, alerts = None, urls = None,
     storage = None, status_page = None\<rparr>"

text \<open>A configuration with \<open>alerts: {retry_count: -1}\<close>.\<close>

definition negativeRetryConfig :: Config where
  "negativeRetryConfig = emptyConfig\<lparr>alerts := Some (noAlerts\<lparr>retry_count := Some (- 1)\<rparr>)\<rparr>"

text \<open>A target named \<open>A\<close> with no expectation configured.\<close>

definition exampleTarget :: UrlConfig where
  "exampleTarget = \<lparr>name = ''A'', category = None, url = ''https://a.example'',
     delay = None, http_method = None, timeout = None, expected_status = None,
     expected_content = None, response_time_threshold = None, check_ssl = None\<rparr>"

text \<open>A probe started at \<open>at\<close> that is answered after \<open>ms\<close> milliseconds.\<close>

definition respondsIn :: "int \<Rightarrow> int \<Rightarrow> int \<Rightarrow> SslInfo option \<Rightarrow> ProbeEnv" where
  "respondsIn at ms code cert =
     \<lparr>startTime = at, stampTime = at,
      makeRequest = (\<lambda>u opts. Inr \<lparr>h_statusCode = code, body = ''ok'', h_sslInfo = cert\<rparr>),
      endTime = at + ms\<rparr>"

text \<open>A probe started at \<open>at\<close> whose request is rejected after \<open>ms\<close> milliseconds.\<close>

definition rejectsIn :: "int \<Rightarrow> int \<Rightarrow> string \<Rightarrow> ProbeEnv" where
  "rejectsIn at ms message =
     \<lparr>startTime = at, stampTime = at, makeRequest = (\<lambda>u opts. Inl message),
      endTime = at + ms\<rparr>"



definition thresholdTarget :: UrlConfig where
  "thresholdTarget = exampleTarget\<lparr>response_time_threshold := Some 100\<rparr>"

text \<open>What \<open>prune\<close> leaves of the log of one target.\<close>

definition keepNewer :: "int \<Rightarrow> StoredCheck list option \<Rightarrow> StoredCheck list option" where
  "keepNewer cutoff log =
     (case log of
        None \<Rightarrow> None
      | Some cs \<Rightarrow>
          if filter (\<lambda>check. c_timestamp check > cutoff) cs = [] then None
          else Some (filter (\<lambda>check. c_timestamp check > cutoff) cs))"

text \<open>A stored check with the given timestamp, outcome and response time.\<close>

definition mkCheck :: "int \<Rightarrow> bool \<Rightarrow> int option \<Rightarrow> StoredCheck" where
  "mkCheck ts ok rt =
     \<lparr>c_timestamp = ts, c_success = ok, c_responseTime = rt,
      c_statusCode = (if ok then Some 200 else Some 503),
      c_error = (if ok then None else Some ''Unexpected status code: 503'')\<rparr>"

text \<open>
  A history read at time 864000000 with a retention of 5 days: the cutoff is 432000000.
\<close>

definition exampleStore :: Store where
  "exampleStore =
     [(''A'', [mkCheck 431999999 True (Some 20), mkCheck 432000000 True (Some 20),
               mkCheck 432000001 False (Some 30)]),
      (''B'', [mkCheck 0 True (Some 20)])]"

text \<open>An incident of target \<open>svc\<close> that is still open.\<close>

definition isOpenFor :: "string \<Rightarrow> Incident \<Rightarrow> bool" where
  "isOpenFor svc i \<longleftrightarrow> service i = svc \<and> \<not> resolved i"

text \<open>The ledger lists the incidents by falling opened-at timestamp.\<close>

definition newestFirst :: "Incident list \<Rightarrow> bool" where
  "newestFirst incs = sorted_wrt (\<lambda>a b. i_timestamp b \<le> i_timestamp a) incs"

text \<open>The incident that \<open>addIncident\<close> puts in front of the ledger.\<close>

definition opened :: "string \<Rightarrow> string option \<Rightarrow> int \<Rightarrow> Incident" where
  "opened svc err ts =
     \<lparr>service = svc, i_error = err, i_timestamp = ts, resolved = False, resolvedAt = None\<rparr>"

text \<open>A ledger with one open incident of B, and with one resolved and two open incidents of A.\<close>

definition exampleLedger :: "Incident list" where
  "exampleLedger =
     [(opened ''B'' (Some ''timeout'') 500),
      (opened ''A'' (Some ''timeout'') 400)\<lparr>resolved := True, resolvedAt := Some 450\<rparr>,
      (opened ''A'' (Some ''refused'') 300),
      (opened ''A'' (Some ''refused'') 200)]"

text \<open>The state in which \<open>runCheck\<close> decides on its alerts.\<close>

definition recorded :: "UrlConfig \<Rightarrow> CheckResult \<Rightarrow> CycleEnv \<Rightarrow> World \<Rightarrow> World" where
  "recorded urlConfig result env w =
     w\<lparr>checks := recordCheck (name urlConfig) result (now_prune env) (retentionDays w) (checks w),
       urlStates := (urlStates w)(name urlConfig \<mapsto>
          \<lparr>us_status = (if success result then StatusUp else StatusDown),
           lastCheck = timestamp result, us_responseTime = responseTime result,
           us_error = error result, us_sslInfo = sslInfo result,
           us_category = category urlConfig, us_name = name urlConfig\<rparr>)\<rparr>"

text \<open>The times at which the SSL-expiry notifications and the down notifications of a target
  fired, oldest first.\<close>

fun sslTimes :: "string \<Rightarrow> Notification list \<Rightarrow> int list" where
  "sslTimes nm [] = []"
| "sslTimes nm (NotifySslExpiring n t # log) =
     (if n = nm then t # sslTimes nm log else sslTimes nm log)"
| "sslTimes nm (other # log) = sslTimes nm log"

fun downTimes :: "string \<Rightarrow> Notification list \<Rightarrow> int list" where
  "downTimes nm [] = []"
| "downTimes nm (NotifyDown n t # log) =
     (if n = nm then t # downTimes nm log else downTimes nm log)"
| "downTimes nm (other # log) = downTimes nm log"

text \<open>The configuration in which every \<open>retry_count\<close>, \<open>retry_delay\<close>, \<open>cooldown_period\<close> and
  \<open>delay\<close> that is 0 is absent instead.\<close>

definition dropZero :: "int option \<Rightarrow> int option" where
  "dropZero x = (if x = Some 0 then None else x)"

definition zerosAbsent :: "Config \<Rightarrow> Config" where
  "zerosAbsent config =
     config\<lparr>alerts :=
              map_option (\<lambda>a. a\<lparr>retry_count := dropZero (retry_count a),
                                retry_delay := dropZero (retry_delay a),
                                cooldown_period := dropZero (cooldown_period a)\<rparr>)
                (alerts config),
            urls :=
              map_option (map (\<lambda>urlConfig. urlConfig\<lparr>delay := dropZero (delay urlConfig)\<rparr>))
                (urls config)\<rparr>"

text \<open>A check cycle during which the clock stands at \<open>t\<close>.\<close>

definition cycleAt :: "int \<Rightarrow> (nat \<Rightarrow> ProbeEnv) \<Rightarrow> CycleEnv" where
  "cycleAt t ps =
     \<lparr>probes = ps, now_prune = t, now_downGuard = t, now_addIncident = t, now_downStamp = t,
      now_resolve = t, now_sslGuard = t, now_sslStamp = t, now_update = t\<rparr>"

text \<open>The state of a target last seen down, and last seen up, at time \<open>t\<close>.\<close>

definition downState :: "string \<Rightarrow> int \<Rightarrow> UrlState" where
  "downState nm t =
     \<lparr>us_status = StatusDown, lastCheck = t, us_responseTime = Some 5,
      us_error = Some ''ECONNREFUSED'', us_sslInfo = None, us_category = None, us_name = nm\<rparr>"

definition upState :: "string \<Rightarrow> int \<Rightarrow> UrlState" where
  "upState nm t =
     \<lparr>us_status = StatusUp, lastCheck = t, us_responseTime = Some 5,
      us_error = None, us_sslInfo = None, us_category = None, us_name = nm\<rparr>"

text \<open>Target A went down at 1000000: it was alerted and its incident is open.\<close>

definition downWorld :: World where
  "downWorld = (startWorld [] 5)
     \<lparr>urlStates := [''A'' \<mapsto> downState ''A'' 1000000],
      lastAlert := [''A'' \<mapsto> 1000000],
      incidents := [opened ''A'' (Some ''ECONNREFUSED'') 1000000],
      sent := [NotifyDown ''A'' 1000000]\<rparr>"

text \<open>Target A went down at 1000000, was alerted, and has recovered since.\<close>

definition recoveredWorld :: World where
  "recoveredWorld = (startWorld [] 5)
     \<lparr>urlStates := [''A'' \<mapsto> upState ''A'' 1060000],
      lastAlert := [''A'' \<mapsto> 1000000],
      incidents := [(opened ''A'' (Some ''ECONNREFUSED'') 1000000)
                      \<lparr>resolved := True, resolvedAt := Some 1060000\<rparr>],
      sent := [NotifyDown ''A'' 1000000, NotifyUp ''A'']\<rparr>"

text \<open>A configuration with every retry and cooldown setting, and the delay of its target, 0.\<close>

definition zeroConfig :: Config where
  "zeroConfig = emptyConfig
     \<lparr>alerts := Some \<lparr>retry_count = Some 0, retry_delay = Some 0, alert_on_recovery = None,
                       cooldown_period = Some 0\<rparr>,
      urls := Some [exampleTarget\<lparr>delay := Some 0\<rparr>]\<rparr>"

text \<open>The cooldown that \<open>runCheck\<close> computes, in milliseconds.\<close>

definition cooldownMs :: "Config \<Rightarrow> int" where
  "cooldownMs config = jsOr (cooldown_period (alertsOf config)) 300 * 1000"

text \<open>Every time in the list is more than \<open>c\<close> after each of the times before it.\<close>

definition spaced :: "int \<Rightarrow> int list \<Rightarrow> bool" where
  "spaced c ts = sorted_wrt (\<lambda>t t'. c < t' - t) ts"

text \<open>The invariant of the alert state at a time \<open>T\<close>: no stamp is later than \<open>T\<close>, the down
  notifications of every target are spaced by the cooldown, and the stamp of a target is
  not older than any of its down notifications.\<close>

definition alertInv :: "int \<Rightarrow> int \<Rightarrow> World \<Rightarrow> bool" where
  "alertInv c T w \<longleftrightarrow>
     (\<forall>k v. lastAlert w k = Some v \<longrightarrow> v \<le> T) \<and>
     (\<forall>nm. spaced c (downTimes nm (sent w))) \<and>
     (\<forall>nm. \<forall>t \<in> set (downTimes nm (sent w)). \<exists>v. lastAlert w nm = Some v \<and> t \<le> v)"

text \<open>A cycle of a target under a configuration; a cycle whose probes are all rejected at
  time \<open>t\<close>; a cycle whose first probe is answered with status 200 at time \<open>t\<close>.\<close>

definition cycleOf :: "UrlConfig \<Rightarrow> Config \<Rightarrow> CycleEnv \<Rightarrow> Cycle" where
  "cycleOf urlConfig config env =
     \<lparr>cy_target = urlConfig, cy_config = Some config, cy_env = env\<rparr>"

definition failing :: "int \<Rightarrow> CycleEnv" where
  "failing t = cycleAt t (\<lambda>k. rejectsIn t 5 ''ECONNREFUSED'')"

definition passing :: "int \<Rightarrow> SslInfo option \<Rightarrow> CycleEnv" where
  "passing t cert = cycleAt t (\<lambda>k. respondsIn t 5 200 cert)"

text \<open>Target A goes down, up, down, up and down again: the second down is 120 seconds after
  the first, the third 400 seconds after it.\<close>

definition flapCycles :: "Cycle list" where
  "flapCycles =
     [cycleOf exampleTarget emptyConfig (failing 1000000),
      cycleOf exampleTarget emptyConfig (passing 1060000 None),
      cycleOf exampleTarget emptyConfig (failing 1120000),
      cycleOf exampleTarget emptyConfig (passing 1180000 None),
      cycleOf exampleTarget emptyConfig (failing 1400000)]"

text \<open>The target expects the default: status 200, no content, no threshold.\<close>

definition plain :: "UrlConfig \<Rightarrow> bool" where
  "plain urlConfig \<longleftrightarrow>
     expected_status urlConfig = None \<and> expected_content urlConfig = None \<and>
     response_time_threshold urlConfig = None"

text \<open>A second target, whose name is \<open>ssl-A\<close>.\<close>

definition sslNamedTarget :: UrlConfig where
  "sslNamedTarget = exampleTarget\<lparr>name := ''ssl-A'', url := ''https://ssl-a.example''\<rparr>"

text \<open>Target \<open>A\<close> with the certificate check switched on, and a certificate with 5 days left.\<close>

definition httpsTarget :: UrlConfig where
  "httpsTarget = exampleTarget\<lparr>check_ssl := Some True\<rparr>"

definition expiringCert :: SslInfo where
  "expiringCert = \<lparr>validFrom = ''Nov  1 00:00:00 2023 GMT'',
     validTo = ''Nov 20 00:00:00 2023 GMT'', daysRemaining = 5\<rparr>"

text \<open>
  Target \<open>ssl-A\<close> goes down at 1700000000000; one minute later target \<open>A\<close> is checked
  and presents a certificate with 5 days left.
\<close>

definition collisionCycles :: "Cycle list" where
  "collisionCycles =
     [cycleOf sslNamedTarget emptyConfig (failing 1700000000000),
      cycleOf httpsTarget emptyConfig (passing 1700000060000 (Some expiringCert))]"

text \<open>
  A configuration that sets \<open>storage.retention_days\<close> and
  \<open>status_page.incident_retention_days\<close> to one day.
\<close>

definition oneDayConfig :: Config where
  "oneDayConfig = emptyConfig
     \<lparr>storage := Some \<lparr>path = None, retention_days = Some 1\<rparr>,
      status_page := Some \<lparr>enabled = Some True, title = None,
                            incident_retention_days = Some 1\<rparr>\<rparr>"

text \<open>
  A ledger read at time 17280000000 (day 200): one resolved and one open incident of
  target B, opened on day 198 and on day 197.
\<close>

definition staleLedgerWorld :: World where
  "staleLedgerWorld = (startWorld [] 1)
     \<lparr>incidents :=
        [(opened ''B'' (Some ''timeout'') 17107200000)
           \<lparr>resolved := True, resolvedAt := Some 17107260000\<rparr>,
         opened ''B'' (Some ''timeout'') 17020800000]\<rparr>"

text \<open>The starts of the \<open>hours\<close> clock hours that end with the hour of \<open>now\<close>, latest first.\<close>

definition hourKeys :: "int \<Rightarrow> int \<Rightarrow> int list" where
  "hourKeys now hours = map (\<lambda>i. hourStartOf now - int i * hourMs) [0..<nat hours]"

text \<open>The response time of a check, the checks of a log that fall into the hour starting at
  \<open>k\<close>, and the mean response time and the success percentage of a list of checks:
  the sum of the response times divided by the number of checks, and the share of the
  successful checks times 100, each computed in double precision and rounded by
  \<open>Math.round\<close>; none for the empty list.\<close>

definition timeOf :: "StoredCheck \<Rightarrow> int" where
  "timeOf check = (case c_responseTime check of None \<Rightarrow> 0 | Some rt \<Rightarrow> rt)"

definition inHour :: "int \<Rightarrow> StoredCheck list \<Rightarrow> StoredCheck list" where
  "inHour k cs = filter (\<lambda>c. hourStartOf (c_timestamp c) = k) cs"

definition meanOf :: "StoredCheck list \<Rightarrow> int option" where
  "meanOf cs =
     (if cs = [] then None
      else Some (mathRound (jsDivide (sum_list (map timeOf cs)) (int (length cs)))))"

definition percentUp :: "StoredCheck list \<Rightarrow> int option" where
  "percentUp cs =
     (if cs = [] then None
      else Some (mathRound
                   (jsTimes (jsDivide (int (length (filter c_success cs))) (int (length cs)))
                      100)))"

text \<open>
  The integer nearest to the exact quotient \<open>p / q\<close> for a positive \<open>q\<close>, the upper one of
  two: the floor of \<open>p / q + 1 / 2\<close>.
\<close>

definition mathRoundDiv :: "int \<Rightarrow> int \<Rightarrow> int" where
  "mathRoundDiv p q = (2 * p + q) div (2 * q)"

text \<open>A log of 40 checks in the hour starting at 0, the first 23 of them successful.\<close>

definition fortyChecks :: "StoredCheck list" where
  "fortyChecks =
     map (\<lambda>i. mkCheck (1000 * int i) (i < 23) (Some 100)) [0..<40]"

text \<open>Checks of target A in the hours starting at 0 and at 7200000, none in the hour between.\<close>

definition hourlyStore :: Store where
  "hourlyStore =
     [(''A'', [mkCheck 1000 True (Some 100), mkCheck 2000 False (Some 201),
               mkCheck 7200005 True (Some 50)])]"



definition badLocationNetwork :: Network where
  "badLocationNetwork =
     \<lparr>urlOf = (\<lambda>u. Some True),
      exchangeAt = (\<lambda>hop u opts.
         Responds \<lparr>w_statusCode = 302, w_location = Some ''http://'', w_body = [],
                    w_cert = None\<rparr>),
      resolveUrl = (\<lambda>location base. None)\<rparr>"

text \<open>A call of \<open>checkUrl\<close> on a network, started at \<open>at\<close> and settled \<open>ms\<close> milliseconds later.\<close>

definition callOn :: "Network \<Rightarrow> int \<Rightarrow> int \<Rightarrow> CallEnv" where
  "callOn net at ms = \<lparr>network = net, startedAt = at, stampedAt = at, settledAt = at + ms\<rparr>"

text \<open>A probe started at \<open>at\<close> that times out after the default 30 seconds, and one that is
  refused after 200 ms.\<close>

definition timesOut :: "int \<Rightarrow> ProbeEnv" where
  "timesOut at = rejectsIn at 30000 ''Request timeout after 30000ms''"

definition refuses :: "int \<Rightarrow> ProbeEnv" where
  "refuses at = rejectsIn at 200 ''connect ECONNREFUSED''"




text \<open>A process that has just started, with no cycle in flight.\<close>

definition booted :: System where
  "booted = \<lparr>world = startWorld [] 5, tasks = []\<rparr>"

text \<open>
  Three cycles of target A under the default configuration. The first, at 1700000000000,
  finds the target up. The second starts 60 seconds later: two probes time out and the
  third, started at 1700000140000, is answered after 5 seconds. The third starts 120
  seconds after the first: its three probes are refused, and its retry loop returns at
  1700000140600, before the second cycle's.
\<close>

definition bootCycle :: CycleEnv where
  "bootCycle = cycleAt 1700000000120 (\<lambda>k. respondsIn 1700000000000 120 200 None)"

definition slowCycle :: CycleEnv where
  "slowCycle =
     cycleAt 1700000145000
       (\<lambda>k. if k = 0 then timesOut 1700000060000
            else if k = 1 then timesOut 1700000100000
            else respondsIn 1700000140000 5000 200 None)"

definition failingCycle :: CycleEnv where
  "failingCycle =
     \<lparr>probes = (\<lambda>k. refuses (1700000120000 + 10200 * int k)),
      now_prune = 1700000140600, now_downGuard = 1700000140600,
      now_addIncident = 1700000141500, now_downStamp = 1700000141500,
      now_resolve = 1700000141500, now_sslGuard = 1700000141500,
      now_sslStamp = 1700000141500, now_update = 1700000141500\<rparr>"

text \<open>
  The first cycle runs to its end; the second and the third start, both reading the
  status \<open>up\<close>; the third is resumed from its retry loop and from \<open>notifyDown\<close>; the
  second is resumed last.
\<close>

definition staleRead :: "Event list" where
  "staleRead =
     [Starts exampleTarget (Some emptyConfig) bootCycle, Resumes 0,
      Starts exampleTarget (Some emptyConfig) slowCycle,
      Starts exampleTarget (Some emptyConfig) failingCycle,
      Resumes 2, Resumes 2, Resumes 1]"

text \<open>The status of a target in \<open>state.urlStates\<close>.\<close>

definition statusOf :: "string \<Rightarrow> System \<Rightarrow> Status option" where
  "statusOf nm s = map_option us_status (urlStates (world s) nm)"


section \<open>The retry-gated check\<close>

lemma retryLoop_skip: "\<not> attempts < retryCount \<Longrightarrow>
  retryLoop probe retryCount retryDelay attempts result trace = (result, trace)"
  by (simp add: retryLoop.simps)

lemma retryLoop_runs:
  "0 \<le> a \<Longrightarrow> a < rc \<Longrightarrow>
   \<exists>k. a \<le> k \<and> k < rc \<and>
       (\<forall>j. a \<le> j \<and> j < k \<longrightarrow> \<not> success (probe (nat j))) \<and>
       (success (probe (nat k)) \<or> k = rc - 1) \<and>
       retryLoop probe rc rd a res tr =
         (Some (probe (nat k)), tr @ probeTrace rd (nat (k - a + 1)))"
proof (induction probe rc rd a res tr rule: retryLoop.induct)
  case (1 probe rc rd a res tr)
  show ?case
  proof (cases "success (probe (nat a))")
    case True
    then have "retryLoop probe rc rd a res tr = (Some (probe (nat a)), tr @ [Probe])"
      using "1.prems" by (simp add: retryLoop.simps [of probe rc rd a])
    then show ?thesis
      using True "1.prems" by (intro exI [of _ a]) auto
  next
    case False
    show ?thesis
    proof (cases "a + 1 < rc")
      case more: True
      have step: "retryLoop probe rc rd a res tr =
                  retryLoop probe rc rd (a + 1) (Some (probe (nat a))) (tr @ [Probe] @ [Sleep rd])"
        using False more "1.prems" by (simp add: retryLoop.simps [of probe rc rd a])
      from "1.IH"(1) [OF _ refl refl _ refl more] False more "1.prems"
      obtain k where k: "a + 1 \<le> k" "k < rc"
        "\<forall>j. a + 1 \<le> j \<and> j < k \<longrightarrow> \<not> success (probe (nat j))"
        "success (probe (nat k)) \<or> k = rc - 1"
        "retryLoop probe rc rd (a + 1) (Some (probe (nat a))) ((tr @ [Probe]) @ [Sleep rd]) =
           (Some (probe (nat k)), ((tr @ [Probe]) @ [Sleep rd]) @ probeTrace rd (nat (k - (a + 1) + 1)))"
        by auto
      have "nat (k - a + 1) = Suc (Suc (nat (k - (a + 1))))" using k(1) "1.prems" by simp
      moreover have "nat (k - (a + 1) + 1) = Suc (nat (k - (a + 1)))" using k(1) by simp
      ultimately have tr: "((tr @ [Probe]) @ [Sleep rd]) @ probeTrace rd (nat (k - (a + 1) + 1)) =
                 tr @ probeTrace rd (nat (k - a + 1))"
        by simp
      have "\<forall>j. a \<le> j \<and> j < k \<longrightarrow> \<not> success (probe (nat j))"
      proof (intro allI impI)
        fix j assume "a \<le> j \<and> j < k"
        then consider "j = a" | "a + 1 \<le> j \<and> j < k" by linarith
        then show "\<not> success (probe (nat j))" using False k(3) by cases auto
      qed
      with k step tr show ?thesis
        by (intro exI [of _ k]) auto
    next
      case last: False
      then have a: "a = rc - 1" using "1.prems" by simp
      have "retryLoop probe rc rd a res tr =
            retryLoop probe rc rd (a + 1) (Some (probe (nat a))) (tr @ [Probe])"
        using False last "1.prems" by (simp add: retryLoop.simps [of probe rc rd a])
      also have "\<dots> = (Some (probe (nat a)), tr @ [Probe])"
        using last by (simp add: retryLoop_skip)
      finally show ?thesis
        using a "1.prems" by (intro exI [of _ a]) auto
    qed
  qed
qed


lemma checkWithRetry_returns:
  assumes "0 < jsOr (retry_count (alertsOf config)) 3"
  shows "\<exists>k. 0 \<le> k \<and> k < jsOr (retry_count (alertsOf config)) 3 \<and>
           (\<forall>j. 0 \<le> j \<and> j < k \<longrightarrow>
                \<not> success (checkUrl urlConfig (settingsOf config) (envs (nat j)))) \<and>
           (success (checkUrl urlConfig (settingsOf config) (envs (nat k))) \<or>
              k = jsOr (retry_count (alertsOf config)) 3 - 1) \<and>
           checkWithRetry urlConfig config envs =
             (Some (checkUrl urlConfig (settingsOf config) (envs (nat k))),
              probeTrace (jsOr (retry_delay (alertsOf config)) 10 * 1000) (nat (k + 1)))"
  using retryLoop_runs [of 0 "jsOr (retry_count (alertsOf config)) 3"
      "\<lambda>k. checkUrl urlConfig (settingsOf config) (envs k)"
      "jsOr (retry_delay (alertsOf config)) 10 * 1000" None "[]"] assms
  by (simp add: checkWithRetry_def Let_def)

text \<open>
  With a positive \<open>retry_count\<close> the loop returns the outcome of an attempt: the first
  that succeeds, or the last one. With \<open>retry_count\<close> 3, a target that fails twice and
  then succeeds yields that success after three transport invocations, with a sleep of
  \<open>retry_delay\<close> seconds between them.
\<close>

lemma checkWithRetry_third_attempt:
  assumes rc: "retry_count (alertsOf config) = Some 3"
    and f0: "\<not> success (checkUrl urlConfig (settingsOf config) (envs 0))"
    and f1: "\<not> success (checkUrl urlConfig (settingsOf config) (envs 1))"
    and s2: "success (checkUrl urlConfig (settingsOf config) (envs 2))"
  shows "checkWithRetry urlConfig config envs =
           (Some (checkUrl urlConfig (settingsOf config) (envs 2)),
            [Probe, Sleep (jsOr (retry_delay (alertsOf config)) 10 * 1000),
             Probe, Sleep (jsOr (retry_delay (alertsOf config)) 10 * 1000), Probe])"
proof -
  have three: "jsOr (retry_count (alertsOf config)) 3 = 3"
    using rc by (simp add: jsOr_def)
  from checkWithRetry_returns [of config urlConfig envs] three
  obtain k where k: "0 \<le> k" "k < 3"
    "success (checkUrl urlConfig (settingsOf config) (envs (nat k))) \<or> k = 2"
    "checkWithRetry urlConfig config envs =
       (Some (checkUrl urlConfig (settingsOf config) (envs (nat k))),
        probeTrace (jsOr (retry_delay (alertsOf config)) 10 * 1000) (nat (k + 1)))"
    by auto
  from k(1,2) consider "k = 0" | "k = 1" | "k = 2" by linarith
  then have "k = 2"
  proof cases
    case 1
    with k(3) f0 show ?thesis by simp
  next
    case 2
    with k(3) f1 show ?thesis by simp
  qed
  moreover have "probeTrace d (nat (2 + 1)) = [Probe, Sleep d, Probe, Sleep d, Probe]" for d
    by (simp add: numeral_3_eq_3)
  ultimately show ?thesis using k(4) by simp
qed

text \<open>
  C1. The retry-gated check is claimed to return the outcome of an attempt, never an
  empty result, for every alerts configuration. With a negative \<open>retry_count\<close> the loop
  body never runs: no probe is made, \<open>checkWithRetry\<close> returns \<open>undefined\<close>, and
  \<open>runCheck\<close> throws when it reads the result.
\<close>

theorem checkWithRetry_negative_count_empty:
  "checkWithRetry urlConfig negativeRetryConfig envs = (None, []) \<and>
   runCheck urlConfig (Some negativeRetryConfig) env w = Inl TypeError"
  by (simp add: runCheck_def checkWithRetry_def negativeRetryConfig_def emptyConfig_def
      alertsOf_def noAlerts_def jsOr_def retryLoop_skip)

section \<open>One probe\<close>





lemma checkUrl_responseTime:
  "responseTime (checkUrl urlConfig globalSettings env) = Some (endTime env - startTime env)"
  by (auto simp: checkUrl_def Let_def split: sum.splits option.splits if_splits)


text \<open>
  The request. A URL that does not parse, an error, a timeout and a redirect beyond
  \<open>max_redirects\<close> reject the promise, each with its message; if every \<open>Location\<close> header
  that is followed parses, the promise settles.
\<close>

lemma settled_cases:
  "settled outcome = Some (Inr response) \<longleftrightarrow> outcome = Resolves response"
  "settled outcome = Some (Inl message) \<longleftrightarrow> outcome = Rejects message"
  "settled outcome = None \<longleftrightarrow> (\<exists>message. outcome = Uncaught message)"
  by (cases outcome; simp add: settled_def)+

lemma makeRequestOn_transport:
  "urlOf net u = None \<Longrightarrow> makeRequestOn net u opts n = Rejects ''Invalid URL''"
  "urlOf net u = Some h \<Longrightarrow> exchangeAt net n u opts = Errors message \<Longrightarrow>
     makeRequestOn net u opts n = Rejects message"
  "urlOf net u = Some h \<Longrightarrow> exchangeAt net n u opts = TimesOut \<Longrightarrow>
     makeRequestOn net u opts n =
       Rejects (''Request timeout after '' @ showInt (o_timeout opts) @ ''ms'')"
  "urlOf net u = Some h \<Longrightarrow> exchangeAt net n u opts = Responds res \<Longrightarrow>
     w_statusCode res \<in> {301, 302, 303, 307, 308} \<Longrightarrow> followRedirects opts \<Longrightarrow>
     maxRedirects opts \<le> n \<Longrightarrow>
     makeRequestOn net u opts n =
       Rejects (''Too many redirects (max: '' @ showInt (maxRedirects opts) @ '')'')"
  by (simp_all add: makeRequestOn.simps [of net u opts n])

lemma makeRequestOn_settles:
  "\<forall>location base. resolveUrl net location base \<noteq> None \<Longrightarrow>
   settled (makeRequestOn net u opts n) \<noteq> None"
proof (induction net u opts n rule: makeRequestOn.induct)
  case (1 net urlString options redirectCount)
  show ?case
    using 1
    by (subst makeRequestOn.simps)
      (auto simp: settled_def simp del: not_None_eq split: option.splits exchange.splits)
qed






text \<open>
  A redirect whose \<open>Location\<close> header \<open>new URL\<close> does not parse: the exception is thrown
  in the listener of \<open>end\<close>, the promise never settles, and \<open>checkUrl\<close> returns nothing.
\<close>

lemma unparsable_location_never_settles:
  "makeRequestOn badLocationNetwork ''https://a.example''
     (requestOptions exampleTarget noSettings) 0 = Uncaught ''Invalid URL'' \<and>
   checkUrlOn exampleTarget noSettings (callOn badLocationNetwork 1000 5) = None"
  by (simp add: makeRequestOn.simps badLocationNetwork_def
        requestOptions_def exampleTarget_def noSettings_def jsOr_def jsOrStr_def
        checkUrlOn_def callOn_def settled_def)



section \<open>The history store\<close>

lemma keepNewer_idem: "keepNewer cutoff (keepNewer cutoff log) = keepNewer cutoff log"
  by (simp add: keepNewer_def split: option.splits)

lemma map_of_pruneKey:
  "map_of (pruneKey cutoff k al) nm =
     (if nm = k then keepNewer cutoff (map_of al nm) else map_of al nm)"
  by (simp add: pruneKey_def keepNewer_def Let_def update_conv' delete_conv'
      split: option.splits)

lemma map_of_fold_pruneKey:
  "map_of (fold (pruneKey cutoff) ks al) nm =
     (if nm \<in> set ks then keepNewer cutoff (map_of al nm) else map_of al nm)"
  by (induction ks arbitrary: al) (simp_all add: map_of_pruneKey keepNewer_idem)

lemma map_of_prune:
  "map_of (prune now retention al) nm = keepNewer (now - retention * dayMs) (map_of al nm)"
proof (cases "nm \<in> set (map fst al)")
  case True
  then show ?thesis by (simp add: prune_def Let_def map_of_fold_pruneKey)
next
  case False
  then have "map_of al nm = None" by (simp add: map_of_eq_None_iff)
  then show ?thesis by (simp add: prune_def Let_def map_of_fold_pruneKey keepNewer_def)
qed

lemma getChecks_prune:
  "getChecks nm (prune now retention al) =
     filter (\<lambda>check. c_timestamp check > now - retention * dayMs) (getChecks nm al)"
  by (simp add: getChecks_def map_of_prune keepNewer_def split: option.splits)

text \<open>
  C9. \<open>prune\<close> keeps, in each target's log and in their order, exactly the checks whose
  timestamp is strictly newer than the cutoff \<open>now - retentionDays\<close> days: every retained
  check is strictly newer than the cutoff, every check that predates the cutoff or lies
  exactly on it is removed, and a target whose log becomes empty has no log any more.
\<close>

theorem prune_keeps_strictly_newer:
  "getChecks nm (prune now retention store) =
     filter (\<lambda>check. now - retention * dayMs < c_timestamp check) (getChecks nm store) \<and>
   (\<forall>check \<in> set (getChecks nm (prune now retention store)).
      now - retention * dayMs < c_timestamp check) \<and>
   (\<forall>check \<in> set (getChecks nm store).
      c_timestamp check \<le> now - retention * dayMs \<longrightarrow>
      check \<notin> set (getChecks nm (prune now retention store))) \<and>
   (map_of (prune now retention store) nm = None \<longleftrightarrow>
      (\<forall>check \<in> set (getChecks nm store). c_timestamp check \<le> now - retention * dayMs))"
proof -
  have "map_of (prune now retention store) nm = None \<longleftrightarrow>
      (\<forall>check \<in> set (getChecks nm store). c_timestamp check \<le> now - retention * dayMs)"
    by (auto simp: map_of_prune keepNewer_def getChecks_def filter_empty_conv not_less
        split: option.splits)
  then show ?thesis by (auto simp: getChecks_prune)
qed


theorem prune_keeps_strictly_newer_witness:
  "getChecks ''A'' (prune 864000000 5 exampleStore) = [mkCheck 432000001 False (Some 30)] \<and>
   mkCheck 432000000 True (Some 20) \<in> set (getChecks ''A'' exampleStore) \<and>
   mkCheck 432000000 True (Some 20) \<notin> set (getChecks ''A'' (prune 864000000 5 exampleStore)) \<and>
   getChecks ''B'' exampleStore \<noteq> [] \<and>
   map_of (prune 864000000 5 exampleStore) ''B'' = None"
  using prune_keeps_strictly_newer [of "''A''" 864000000 5 exampleStore]
    prune_keeps_strictly_newer [of "''B''" 864000000 5 exampleStore]
  by (simp add: exampleStore_def getChecks_def mkCheck_def dayMs_def)

section \<open>The incident ledger\<close>

lemma resolveIncident_noop:
  "\<forall>i \<in> set incs. \<not> isOpenFor svc i \<Longrightarrow> resolveIncident svc now incs = incs"
  by (induction incs) (auto simp: isOpenFor_def)

lemma resolveIncident_first:
  "\<forall>j \<in> set pre. \<not> isOpenFor svc j \<Longrightarrow> isOpenFor svc i \<Longrightarrow>
   resolveIncident svc now (pre @ i # post) =
     pre @ i\<lparr>resolved := True, resolvedAt := Some now\<rparr> # post"
  by (induction pre) (auto simp: isOpenFor_def)

lemma resolveIncident_timestamps:
  "map i_timestamp (resolveIncident svc now incs) = map i_timestamp incs"
  by (induction incs) auto

lemma resolveIncident_newestFirst:
  "newestFirst (resolveIncident svc now incs) = newestFirst incs"
proof -
  have "newestFirst xs = sorted_wrt (\<lambda>a b. b \<le> a) (map i_timestamp xs)" for xs
    by (simp add: newestFirst_def sorted_wrt_map)
  then show ?thesis by (simp add: resolveIncident_timestamps)
qed

lemma addIncident_eq:
  "addIncident svc err ts now incs =
     filter (\<lambda>i. now - 90 * dayMs < i_timestamp i) (opened svc err ts # incs)"
  by (simp add: addIncident_def opened_def Let_def)

text \<open>
  After \<open>addIncident\<close> the ledger holds the new incident and the old ones, each if it was
  opened less than 90 days ago, resolved or not.
\<close>

lemma addIncident_keeps_90_days:
  "set (addIncident svc err ts now incs) =
     {i \<in> insert (opened svc err ts) (set incs). now - 90 * dayMs < i_timestamp i}"
  by (auto simp: addIncident_eq)

lemma addIncident_newestFirst:
  "newestFirst incs \<Longrightarrow> \<forall>i \<in> set incs. i_timestamp i \<le> ts \<Longrightarrow>
   newestFirst (addIncident svc err ts now incs)"
  unfolding addIncident_eq newestFirst_def
  by (intro sorted_wrt_filter) (simp add: opened_def)

text \<open>
  C8. The ledger lists incidents most recent first: \<open>addIncident\<close> puts the incident it
  opens in front of the older ones, and neither it nor \<open>resolveIncident\<close> reorders them.
  \<open>resolveIncident\<close> marks the first, that is the most recent, unresolved incident of the
  target as resolved and stamps it, leaving every other incident as it is; when the
  target has no unresolved incident it returns the ledger unchanged.
\<close>

theorem resolveIncident_most_recent_open:
  "((\<forall>i \<in> set incs. \<not> isOpenFor svc i) \<longrightarrow> resolveIncident svc now incs = incs) \<and>
   (\<forall>pre i post.
      incs = pre @ i # post \<and> (\<forall>j \<in> set pre. \<not> isOpenFor svc j) \<and> isOpenFor svc i \<longrightarrow>
      resolveIncident svc now incs =
        pre @ i\<lparr>resolved := True, resolvedAt := Some now\<rparr> # post) \<and>
   (now' - 90 * dayMs < ts \<longrightarrow>
      addIncident svc err ts now' incs =
        opened svc err ts # filter (\<lambda>i. now' - 90 * dayMs < i_timestamp i) incs) \<and>
   (newestFirst incs \<and> (\<forall>i \<in> set incs. i_timestamp i \<le> ts) \<longrightarrow>
      newestFirst (addIncident svc err ts now' incs)) \<and>
   (newestFirst incs \<longrightarrow> newestFirst (resolveIncident svc now incs))"
  using resolveIncident_noop [of incs svc now] addIncident_newestFirst [of incs ts svc err now']
  by (auto simp: resolveIncident_first resolveIncident_newestFirst addIncident_eq opened_def)


theorem resolveIncident_most_recent_open_witness:
  "resolveIncident ''C'' 600 exampleLedger = exampleLedger \<and>
   resolveIncident ''A'' 600 exampleLedger =
     [(opened ''B'' (Some ''timeout'') 500),
      (opened ''A'' (Some ''timeout'') 400)\<lparr>resolved := True, resolvedAt := Some 450\<rparr>,
      (opened ''A'' (Some ''refused'') 300)\<lparr>resolved := True, resolvedAt := Some 600\<rparr>,
      (opened ''A'' (Some ''refused'') 200)] \<and>
   addIncident ''C'' (Some ''reset'') 550 600 exampleLedger =
     opened ''C'' (Some ''reset'') 550 # exampleLedger \<and>
   newestFirst exampleLedger \<and>
   newestFirst (addIncident ''C'' (Some ''reset'') 550 600 exampleLedger) \<and>
   newestFirst (resolveIncident ''A'' 600 exampleLedger)"
proof -
  have nf: "newestFirst exampleLedger"
    by (simp add: newestFirst_def exampleLedger_def opened_def)
  have le: "\<forall>i \<in> set exampleLedger. i_timestamp i \<le> 550"
    by (simp add: exampleLedger_def opened_def)
  have closed: "\<forall>i \<in> set exampleLedger. \<not> isOpenFor ''C'' i"
    by (simp add: exampleLedger_def opened_def isOpenFor_def)
  have split: "exampleLedger =
      [(opened ''B'' (Some ''timeout'') 500),
       (opened ''A'' (Some ''timeout'') 400)\<lparr>resolved := True, resolvedAt := Some 450\<rparr>]
      @ opened ''A'' (Some ''refused'') 300 # [opened ''A'' (Some ''refused'') 200] \<and>
     (\<forall>j \<in> set [(opened ''B'' (Some ''timeout'') 500),
       (opened ''A'' (Some ''timeout'') 400)\<lparr>resolved := True, resolvedAt := Some 450\<rparr>].
        \<not> isOpenFor ''A'' j) \<and>
     isOpenFor ''A'' (opened ''A'' (Some ''refused'') 300)"
    by (simp add: exampleLedger_def opened_def isOpenFor_def)
  have keep: "filter (\<lambda>i. 600 - 90 * dayMs < i_timestamp i) exampleLedger = exampleLedger"
    by (simp add: exampleLedger_def opened_def dayMs_def)
  have lt: "600 - 90 * dayMs < (550::int)"
    by (simp add: dayMs_def)
  note at_C = resolveIncident_most_recent_open
    [of exampleLedger "''C''" 600 600 550 "Some ''reset''"]
  from at_C closed have c: "resolveIncident ''C'' 600 exampleLedger = exampleLedger"
    by blast
  from at_C lt have "addIncident ''C'' (Some ''reset'') 550 600 exampleLedger =
      opened ''C'' (Some ''reset'') 550 #
        filter (\<lambda>i. 600 - 90 * dayMs < i_timestamp i) exampleLedger"
    by blast
  with keep have a: "addIncident ''C'' (Some ''reset'') 550 600 exampleLedger =
      opened ''C'' (Some ''reset'') 550 # exampleLedger"
    by simp
  from at_C nf le have n: "newestFirst (addIncident ''C'' (Some ''reset'') 550 600 exampleLedger)"
    by blast
  from resolveIncident_most_recent_open [of exampleLedger "''A''" 600 600 550 "Some ''reset''"]
    split nf
  have r: "resolveIncident ''A'' 600 exampleLedger =
      [(opened ''B'' (Some ''timeout'') 500),
       (opened ''A'' (Some ''timeout'') 400)\<lparr>resolved := True, resolvedAt := Some 450\<rparr>]
      @ (opened ''A'' (Some ''refused'') 300)\<lparr>resolved := True, resolvedAt := Some 600\<rparr>
        # [opened ''A'' (Some ''refused'') 200]"
    and m: "newestFirst (resolveIncident ''A'' 600 exampleLedger)"
    by blast+
  from c a n r m nf show ?thesis by simp
qed

section \<open>One check cycle\<close>

lemma runCheck_result:
  "fst (checkWithRetry urlConfig config (probes env)) = Some result \<Longrightarrow>
   runCheck urlConfig (Some config) env w =
     Inr (updateStatusPage config (now_update env)
            (sslAlerts urlConfig result env
               (statusAlerts urlConfig config (urlStates w (name urlConfig)) result env
                  (recorded urlConfig result env w))))"
  by (simp add: runCheck_def recorded_def Let_def)

lemma runCheck_undefined:
  "fst (checkWithRetry urlConfig config (probes env)) = None \<Longrightarrow>
   runCheck urlConfig (Some config) env w = Inl TypeError"
  by (simp add: runCheck_def)

lemma updateStatusPage_fields [simp]:
  "sent (updateStatusPage config now w) = sent w"
  "lastAlert (updateStatusPage config now w) = lastAlert w"
  "incidents (updateStatusPage config now w) = incidents w"
  "urlStates (updateStatusPage config now w) = urlStates w"
  "checks (updateStatusPage config now w) = checks w"
  by (simp_all add: updateStatusPage_def Let_def)

lemma sslAlerts_fields [simp]:
  "incidents (sslAlerts urlConfig result env w) = incidents w"
  "urlStates (sslAlerts urlConfig result env w) = urlStates w"
  "checks (sslAlerts urlConfig result env w) = checks w"
  by (simp_all add: sslAlerts_def Let_def split: option.splits)

lemma statusAlerts_fields [simp]:
  "urlStates (statusAlerts urlConfig config prevState result env w) = urlStates w"
  "checks (statusAlerts urlConfig config prevState result env w) = checks w"
  by (simp_all add: statusAlerts_def Let_def)

lemma recorded_fields [simp]:
  "sent (recorded urlConfig result env w) = sent w"
  "lastAlert (recorded urlConfig result env w) = lastAlert w"
  "incidents (recorded urlConfig result env w) = incidents w"
  by (simp_all add: recorded_def)

lemma downTimes_append [simp]: "downTimes nm (xs @ ys) = downTimes nm xs @ downTimes nm ys"
  by (induction nm xs rule: downTimes.induct) simp_all

lemma sslTimes_append [simp]: "sslTimes nm (xs @ ys) = sslTimes nm xs @ sslTimes nm ys"
  by (induction nm xs rule: sslTimes.induct) simp_all

text \<open>
  The SSL-expiry notification of a cycle fires exactly when the result carries a
  certificate with at most 14 days left and the guard reads a time more than 24 hours
  after the stamp under the target's SSL key; the status of the target and the cooldown
  play no part.
\<close>

lemma sslAlerts_fires_iff:
  "sslTimes (name urlConfig) (sent (sslAlerts urlConfig result env w)) =
     sslTimes (name urlConfig) (sent w) @
       (if \<exists>info. sslInfo result = Some info \<and> daysRemaining info \<le> 14 \<and>
             24 * 60 * 60 * 1000 < now_sslGuard env - jsOr (lastAlert w (sslAlertKey (name urlConfig))) 0
        then [now_sslGuard env] else [])"
  by (auto simp: sslAlerts_def Let_def SSL_WARNING_DAYS_def split: option.splits)

lemma resolveIncident_closes_one:
  "length (filter (isOpenFor svc) (resolveIncident svc now incs)) =
   length (filter (isOpenFor svc) incs) - 1"
  by (induction incs) (auto simp: isOpenFor_def)

lemma sslAlerts_sent:
  "\<exists>rest. sent (sslAlerts urlConfig result env w) = sent w @ rest \<and>
      (rest = [] \<or> rest = [NotifySslExpiring (name urlConfig) (now_sslGuard env)])"
  by (simp add: sslAlerts_def Let_def split: option.splits)

text \<open>
  A cycle that runs without another cycle in between, ends in success and found the
  previous state down when it started: if \<open>alert_on_recovery\<close> is not \<open>false\<close>, it calls
  the recovery notification once and resolves the target's most recent open incident,
  whatever the cooldown period, the time of the last alert and the clock are: no guard on
  them stands before the call. The target's state becomes up.
\<close>

lemma uninterrupted_recovery_notified:
  assumes "fst (checkWithRetry urlConfig config (probes env)) = Some result"
    and "success result"
    and "wasDown (urlStates w (name urlConfig))"
    and "alert_on_recovery (alertsOf config) \<noteq> Some False"
  shows "\<exists>w' rest. runCheck urlConfig (Some config) env w = Inr w' \<and>
           sent w' = sent w @ NotifyUp (name urlConfig) # rest \<and>
           (rest = [] \<or> rest = [NotifySslExpiring (name urlConfig) (now_sslGuard env)]) \<and>
           incidents w' = resolveIncident (name urlConfig) (now_resolve env) (incidents w) \<and>
           length (filter (isOpenFor (name urlConfig)) (incidents w')) =
             length (filter (isOpenFor (name urlConfig)) (incidents w)) - 1 \<and>
           map_option us_status (urlStates w' (name urlConfig)) = Some StatusUp"
proof -
  let ?r = "recorded urlConfig result env w"
  let ?s = "statusAlerts urlConfig config (urlStates w (name urlConfig)) result env ?r"
  let ?w' = "updateStatusPage config (now_update env) (sslAlerts urlConfig result env ?s)"
  have run: "runCheck urlConfig (Some config) env w = Inr ?w'"
    using assms(1) by (rule runCheck_result)
  have s_sent: "sent ?s = sent w @ [NotifyUp (name urlConfig)]"
    and s_inc: "incidents ?s = resolveIncident (name urlConfig) (now_resolve env) (incidents w)"
    using assms(2-4) by (simp_all add: statusAlerts_def Let_def)
  obtain rest where rest: "sent (sslAlerts urlConfig result env ?s) = sent ?s @ rest"
    "rest = [] \<or> rest = [NotifySslExpiring (name urlConfig) (now_sslGuard env)]"
    using sslAlerts_sent by blast
  have "sent ?w' = sent w @ NotifyUp (name urlConfig) # rest"
    using rest(1) s_sent by simp
  moreover have "incidents ?w' = resolveIncident (name urlConfig) (now_resolve env) (incidents w)"
    using s_inc by simp
  moreover have "map_option us_status (urlStates ?w' (name urlConfig)) = Some StatusUp"
    using assms(2) by (simp add: recorded_def)
  ultimately show ?thesis
    using run rest(2) resolveIncident_closes_one [of "name urlConfig" "now_resolve env" "incidents w"]
    by (intro exI [of _ ?w'] exI [of _ rest]) simp
qed

lemma checkWithRetry_first_success:
  assumes "0 < jsOr (retry_count (alertsOf config)) 3"
    and "success (checkUrl urlConfig (settingsOf config) (envs 0))"
  shows "checkWithRetry urlConfig config envs =
           (Some (checkUrl urlConfig (settingsOf config) (envs 0)), [Probe])"
proof -
  from checkWithRetry_returns [OF assms(1), of urlConfig envs] obtain k where k: "0 \<le> k"
    "\<forall>j. 0 \<le> j \<and> j < k \<longrightarrow> \<not> success (checkUrl urlConfig (settingsOf config) (envs (nat j)))"
    "checkWithRetry urlConfig config envs =
       (Some (checkUrl urlConfig (settingsOf config) (envs (nat k))),
        probeTrace (jsOr (retry_delay (alertsOf config)) 10 * 1000) (nat (k + 1)))"
    by blast
  have "k = 0"
  proof (rule ccontr)
    assume "k \<noteq> 0"
    then have "0 \<le> (0::int) \<and> 0 < k" using k(1) by simp
    with k(2) have "\<not> success (checkUrl urlConfig (settingsOf config) (envs (nat 0)))" by blast
    with assms(2) show False by simp
  qed
  with k(3) show ?thesis by simp
qed

lemma checkWithRetry_all_fail:
  assumes "0 < jsOr (retry_count (alertsOf config)) 3"
    and "\<forall>k. \<not> success (checkUrl urlConfig (settingsOf config) (envs k))"
  shows "checkWithRetry urlConfig config envs =
           (Some (checkUrl urlConfig (settingsOf config)
                    (envs (nat (jsOr (retry_count (alertsOf config)) 3 - 1)))),
            probeTrace (jsOr (retry_delay (alertsOf config)) 10 * 1000)
              (nat (jsOr (retry_count (alertsOf config)) 3)))"
proof -
  from checkWithRetry_returns [OF assms(1), of urlConfig envs] obtain k where k:
    "success (checkUrl urlConfig (settingsOf config) (envs (nat k))) \<or>
       k = jsOr (retry_count (alertsOf config)) 3 - 1"
    "checkWithRetry urlConfig config envs =
       (Some (checkUrl urlConfig (settingsOf config) (envs (nat k))),
        probeTrace (jsOr (retry_delay (alertsOf config)) 10 * 1000) (nat (k + 1)))"
    by blast
  from k(1) assms(2) have "k = jsOr (retry_count (alertsOf config)) 3 - 1" by blast
  with k(2) show ?thesis by simp
qed

lemma jsOr_dropZero [simp]: "jsOr (dropZero x) d = jsOr x d"
  by (simp add: jsOr_def dropZero_def split: option.splits)

lemma alertsOf_zerosAbsent [simp]:
  "jsOr (retry_count (alertsOf (zerosAbsent config))) d = jsOr (retry_count (alertsOf config)) d"
  "jsOr (retry_delay (alertsOf (zerosAbsent config))) d = jsOr (retry_delay (alertsOf config)) d"
  "jsOr (cooldown_period (alertsOf (zerosAbsent config))) d =
     jsOr (cooldown_period (alertsOf config)) d"
  "alert_on_recovery (alertsOf (zerosAbsent config)) = alert_on_recovery (alertsOf config)"
  "settingsOf (zerosAbsent config) = settingsOf config"
  by (simp_all add: alertsOf_def settingsOf_def zerosAbsent_def split: option.splits)

lemma checkWithRetry_zerosAbsent:
  "checkWithRetry urlConfig (zerosAbsent config) envs = checkWithRetry urlConfig config envs"
  by (simp add: checkWithRetry_def Let_def)

lemma statusAlerts_zerosAbsent:
  "statusAlerts urlConfig (zerosAbsent config) prevState result env w =
   statusAlerts urlConfig config prevState result env w"
  by (simp add: statusAlerts_def Let_def)

lemma updateStatusPage_zerosAbsent:
  "updateStatusPage (zerosAbsent config) now w = updateStatusPage config now w"
proof -
  have mf: "List.map_filter (\<lambda>urlConfig. urlStates w (name urlConfig))
          (map (\<lambda>urlConfig. urlConfig\<lparr>delay := dropZero (delay urlConfig)\<rparr>) us) =
        List.map_filter (\<lambda>urlConfig. urlStates w (name urlConfig)) us"
    for us :: "UrlConfig list"
    by (induction us) (simp_all split: option.splits)
  show ?thesis
    by (simp add: updateStatusPage_def Let_def zerosAbsent_def mf split: option.splits)
qed

lemma runCheck_zerosAbsent:
  "runCheck urlConfig (Some (zerosAbsent config)) env w = runCheck urlConfig (Some config) env w"
  by (simp add: runCheck_def Let_def checkWithRetry_zerosAbsent statusAlerts_zerosAbsent
      updateStatusPage_zerosAbsent split: option.splits)

lemma scheduleChecks_zerosAbsent:
  "scheduleChecks (Some (zerosAbsent config)) = scheduleChecks (Some config)"
  by (simp add: scheduleChecks_def zerosAbsent_def split: option.splits)

lemma exampleTarget_responds:
  "success (checkUrl exampleTarget noSettings (respondsIn t ms 200 cert))"
  by (simp add: checkUrl_def exampleTarget_def respondsIn_def jsOrList_def Let_def)

lemma rejected_fails:
  "\<not> success (checkUrl urlConfig globalSettings (rejectsIn t ms message))"
  "error (checkUrl urlConfig globalSettings (rejectsIn t ms message)) = Some message"
  "timestamp (checkUrl urlConfig globalSettings (rejectsIn t ms message)) = t"
  "sslInfo (checkUrl urlConfig globalSettings (rejectsIn t ms message)) = None"
  by (simp_all add: checkUrl_def rejectsIn_def)

lemma uninterrupted_recovery_example:
  "\<exists>w'. runCheck exampleTarget (Some emptyConfig)
            (cycleAt 1060000 (\<lambda>k. respondsIn 1060000 5 200 None)) downWorld = Inr w' \<and>
         take 2 (sent w') = [NotifyDown ''A'' 1000000, NotifyUp ''A''] \<and>
         incidents w' = [(opened ''A'' (Some ''ECONNREFUSED'') 1000000)
                           \<lparr>resolved := True, resolvedAt := Some 1060000\<rparr>] \<and>
         filter (isOpenFor ''A'') (incidents w') = []"
proof -
  let ?env = "cycleAt 1060000 (\<lambda>k. respondsIn 1060000 5 200 None)"
  let ?result = "checkUrl exampleTarget noSettings (respondsIn 1060000 5 200 None)"
  have ok: "success ?result" by (rule exampleTarget_responds)
  have cfg: "0 < jsOr (retry_count (alertsOf emptyConfig)) 3"
    "settingsOf emptyConfig = noSettings"
    "alert_on_recovery (alertsOf emptyConfig) \<noteq> Some False"
    by (simp_all add: emptyConfig_def alertsOf_def settingsOf_def noAlerts_def jsOr_def)
  have res: "fst (checkWithRetry exampleTarget emptyConfig (probes ?env)) = Some ?result"
    using checkWithRetry_first_success [of emptyConfig exampleTarget "probes ?env"] cfg ok
    by (simp add: cycleAt_def)
  have down: "wasDown (urlStates downWorld (name exampleTarget))"
    by (simp add: wasDown_def downWorld_def downState_def exampleTarget_def)
  from uninterrupted_recovery_notified [OF res ok down cfg(3)] obtain w' rest where w':
    "runCheck exampleTarget (Some emptyConfig) ?env downWorld = Inr w'"
    "sent w' = sent downWorld @ NotifyUp (name exampleTarget) # rest"
    "incidents w' = resolveIncident (name exampleTarget) (now_resolve ?env) (incidents downWorld)"
    "length (filter (isOpenFor (name exampleTarget)) (incidents w')) =
       length (filter (isOpenFor (name exampleTarget)) (incidents downWorld)) - 1"
    by blast
  from w'(2) have "take 2 (sent w') = [NotifyDown ''A'' 1000000, NotifyUp ''A'']"
    by (simp add: downWorld_def exampleTarget_def)
  moreover from w'(3) have "incidents w' = [(opened ''A'' (Some ''ECONNREFUSED'') 1000000)
                           \<lparr>resolved := True, resolvedAt := Some 1060000\<rparr>]"
    by (simp add: downWorld_def exampleTarget_def cycleAt_def opened_def)
  moreover from w'(4) have "filter (isOpenFor ''A'') (incidents w') = []"
    by (simp add: downWorld_def exampleTarget_def opened_def isOpenFor_def)
  ultimately show ?thesis using w'(1) by blast
qed

lemma sslAlerts_downTimes [simp]:
  "downTimes nm (sent (sslAlerts urlConfig result env w)) = downTimes nm (sent w)"
  by (simp add: sslAlerts_def Let_def split: option.splits)

lemma statusAlerts_within_cooldown:
  "\<not> success result \<Longrightarrow> \<not> wasDown prevState \<Longrightarrow>
   now_downGuard env - jsOr (lastAlert w (name urlConfig)) 0 \<le>
     jsOr (cooldown_period (alertsOf config)) 300 * 1000 \<Longrightarrow>
   statusAlerts urlConfig config prevState result env w = w"
  by (simp add: statusAlerts_def Let_def)

text \<open>
  C10. A configuration in which \<open>retry_count\<close>, \<open>retry_delay\<close>, \<open>cooldown_period\<close> or a
  target's \<open>delay\<close> is 0 behaves exactly as the configuration in which these fields are
  absent: the retry-gated check, the whole check cycle and the timers are the same. In
  particular, with \<open>retry_count\<close> and \<open>retry_delay\<close> 0, a target that keeps failing is
  probed 3 times with sleeps of 10 seconds; with \<open>cooldown_period\<close> 0, a down transition
  within 300 seconds of the last alert sends no down notification; and a target with
  \<open>delay\<close> 0 is checked every 60 seconds.
\<close>

theorem zero_setting_is_default:
  "checkWithRetry urlConfig (zerosAbsent config) envs = checkWithRetry urlConfig config envs \<and>
   runCheck urlConfig (Some (zerosAbsent config)) env w = runCheck urlConfig (Some config) env w \<and>
   scheduleChecks (Some (zerosAbsent config)) = scheduleChecks (Some config) \<and>
   (retry_count (alertsOf config) = Some 0 \<and> retry_delay (alertsOf config) = Some 0 \<and>
    (\<forall>k. \<not> success (checkUrl urlConfig (settingsOf config) (envs k))) \<longrightarrow>
      snd (checkWithRetry urlConfig config envs) =
        [Probe, Sleep 10000, Probe, Sleep 10000, Probe]) \<and>
   (cooldown_period (alertsOf config) = Some 0 \<and>
    fst (checkWithRetry urlConfig config (probes env)) = Some result \<and>
    \<not> success result \<and> \<not> wasDown (urlStates w (name urlConfig)) \<and>
    now_downGuard env - jsOr (lastAlert w (name urlConfig)) 0 \<le> 300 * 1000 \<longrightarrow>
      (\<exists>w'. runCheck urlConfig (Some config) env w = Inr w' \<and>
            downTimes (name urlConfig) (sent w') = downTimes (name urlConfig) (sent w))) \<and>
   (urls config = Some us \<and> delay target = Some 0 \<and> target \<in> set us \<longrightarrow>
      (name target, 60 * 1000) \<in> set (scheduleChecks (Some config)))"
proof (intro conjI impI)
  show "checkWithRetry urlConfig (zerosAbsent config) envs = checkWithRetry urlConfig config envs"
    by (rule checkWithRetry_zerosAbsent)
  show "runCheck urlConfig (Some (zerosAbsent config)) env w = runCheck urlConfig (Some config) env w"
    by (rule runCheck_zerosAbsent)
  show "scheduleChecks (Some (zerosAbsent config)) = scheduleChecks (Some config)"
    by (rule scheduleChecks_zerosAbsent)
next
  assume a: "retry_count (alertsOf config) = Some 0 \<and> retry_delay (alertsOf config) = Some 0 \<and>
    (\<forall>k. \<not> success (checkUrl urlConfig (settingsOf config) (envs k)))"
  then have rc: "jsOr (retry_count (alertsOf config)) 3 = 3"
    and rd: "jsOr (retry_delay (alertsOf config)) 10 = 10"
    by (simp_all add: jsOr_def)
  have "snd (checkWithRetry urlConfig config envs) = probeTrace (10 * 1000) (nat 3)"
    using checkWithRetry_all_fail [of config urlConfig envs] a rc rd by simp
  also have "nat 3 = Suc (Suc (Suc 0))" by simp
  finally show "snd (checkWithRetry urlConfig config envs) =
      [Probe, Sleep 10000, Probe, Sleep 10000, Probe]"
    by simp
next
  assume a: "cooldown_period (alertsOf config) = Some 0 \<and>
    fst (checkWithRetry urlConfig config (probes env)) = Some result \<and>
    \<not> success result \<and> \<not> wasDown (urlStates w (name urlConfig)) \<and>
    now_downGuard env - jsOr (lastAlert w (name urlConfig)) 0 \<le> 300 * 1000"
  then have cd: "jsOr (cooldown_period (alertsOf config)) 300 = 300"
    by (simp add: jsOr_def)
  have "statusAlerts urlConfig config (urlStates w (name urlConfig)) result env
          (recorded urlConfig result env w) = recorded urlConfig result env w"
    using a cd by (intro statusAlerts_within_cooldown) simp_all
  then show "\<exists>w'. runCheck urlConfig (Some config) env w = Inr w' \<and>
            downTimes (name urlConfig) (sent w') = downTimes (name urlConfig) (sent w)"
    using a by (simp add: runCheck_result)
next
  assume a: "urls config = Some us \<and> delay target = Some 0 \<and> target \<in> set us"
  then have "(name target, jsOr (delay target) 60 * 1000) \<in> set (scheduleChecks (Some config))"
    by (auto simp: scheduleChecks_def)
  with a show "(name target, 60 * 1000) \<in> set (scheduleChecks (Some config))"
    by (simp add: jsOr_def)
qed

theorem zero_setting_is_default_witness:
  "snd (checkWithRetry exampleTarget zeroConfig (\<lambda>k. rejectsIn 1100000 5 ''ECONNREFUSED'')) =
     [Probe, Sleep 10000, Probe, Sleep 10000, Probe] \<and>
   (\<exists>w'. runCheck exampleTarget (Some zeroConfig)
            (cycleAt 1100000 (\<lambda>k. rejectsIn 1100000 5 ''ECONNREFUSED'')) recoveredWorld = Inr w' \<and>
          downTimes ''A'' (sent w') = [1000000]) \<and>
   (''A'', 60000) \<in> set (scheduleChecks (Some zeroConfig))"
proof -
  let ?ps = "\<lambda>k::nat. rejectsIn 1100000 5 ''ECONNREFUSED''"
  let ?env = "cycleAt 1100000 ?ps"
  let ?result = "checkUrl exampleTarget noSettings (rejectsIn 1100000 5 ''ECONNREFUSED'')"
  note inst = zero_setting_is_default [of exampleTarget zeroConfig ?ps ?env recoveredWorld
      ?result "[exampleTarget\<lparr>delay := Some 0\<rparr>]" "exampleTarget\<lparr>delay := Some 0\<rparr>"]
  have cfg: "retry_count (alertsOf zeroConfig) = Some 0" "retry_delay (alertsOf zeroConfig) = Some 0"
    "cooldown_period (alertsOf zeroConfig) = Some 0" "settingsOf zeroConfig = noSettings"
    "urls zeroConfig = Some [exampleTarget\<lparr>delay := Some 0\<rparr>]"
    by (simp_all add: zeroConfig_def emptyConfig_def alertsOf_def settingsOf_def)
  have fails: "\<forall>k. \<not> success (checkUrl exampleTarget (settingsOf zeroConfig) (?ps k))"
    by (simp add: rejected_fails)
  from inst cfg(1,2) fails
  have t: "snd (checkWithRetry exampleTarget zeroConfig ?ps) =
      [Probe, Sleep 10000, Probe, Sleep 10000, Probe]"
    by blast
  have res: "fst (checkWithRetry exampleTarget zeroConfig (probes ?env)) = Some ?result"
    using checkWithRetry_all_fail [of zeroConfig exampleTarget ?ps] fails cfg
    by (simp add: jsOr_def cycleAt_def)
  have pre: "\<not> success ?result" "\<not> wasDown (urlStates recoveredWorld (name exampleTarget))"
    "now_downGuard ?env - jsOr (lastAlert recoveredWorld (name exampleTarget)) 0 \<le> 300 * 1000"
    by (simp_all add: rejected_fails wasDown_def recoveredWorld_def upState_def exampleTarget_def
        cycleAt_def jsOr_def)
  from inst cfg(3) res pre
  have "\<exists>w'. runCheck exampleTarget (Some zeroConfig) ?env recoveredWorld = Inr w' \<and>
      downTimes (name exampleTarget) (sent w') = downTimes (name exampleTarget) (sent recoveredWorld)"
    by blast
  then have r: "\<exists>w'. runCheck exampleTarget (Some zeroConfig) ?env recoveredWorld = Inr w' \<and>
      downTimes ''A'' (sent w') = [1000000]"
    by (simp add: recoveredWorld_def exampleTarget_def)
  from inst cfg(5)
  have "(name (exampleTarget\<lparr>delay := Some 0\<rparr>), 60 * 1000) \<in> set (scheduleChecks (Some zeroConfig))"
    by simp
  then have s: "(''A'', 60000) \<in> set (scheduleChecks (Some zeroConfig))"
    by (simp add: exampleTarget_def)
  from t r s show ?thesis by blast
qed

section \<open>Spacing of down notifications\<close>

lemma alertInv_mono: "alertInv c T w \<Longrightarrow> T \<le> T' \<Longrightarrow> alertInv c T' w"
  unfolding alertInv_def by (meson order_trans)

lemma alertInv_start: "alertInv c T (startWorld loaded retention)"
  by (simp add: alertInv_def startWorld_def spaced_def)

lemma alertInv_cong:
  "lastAlert w' = lastAlert w \<Longrightarrow> sent w' = sent w \<Longrightarrow> alertInv c T w' = alertInv c T w"
  by (simp add: alertInv_def)

lemma alertInvI:
  assumes "\<And>k v. lastAlert w k = Some v \<Longrightarrow> v \<le> T"
    and "\<And>nm. spaced c (downTimes nm (sent w))"
    and "\<And>nm t. t \<in> set (downTimes nm (sent w)) \<Longrightarrow> \<exists>v. lastAlert w nm = Some v \<and> t \<le> v"
  shows "alertInv c T w"
  using assms unfolding alertInv_def by blast

lemma alertInv_stamp: "alertInv c T w \<Longrightarrow> lastAlert w k = Some v \<Longrightarrow> v \<le> T"
  unfolding alertInv_def by blast

lemma alertInv_spaced: "alertInv c T w \<Longrightarrow> spaced c (downTimes nm (sent w))"
  unfolding alertInv_def by blast

lemma alertInv_covered:
  "alertInv c T w \<Longrightarrow> t \<in> set (downTimes nm (sent w)) \<Longrightarrow>
   \<exists>v. lastAlert w nm = Some v \<and> t \<le> v \<and> v \<le> T"
  unfolding alertInv_def by blast

lemma jsOr_Some_zero [simp]: "jsOr (Some v) 0 = v"
  by (simp add: jsOr_def)

lemma spaced_snoc: "spaced c (ts @ [g]) \<longleftrightarrow> spaced c ts \<and> (\<forall>t \<in> set ts. c < g - t)"
  by (auto simp: spaced_def sorted_wrt_append)

text \<open>
  The invariant of the alert state is kept by the alerts of a status change: a down
  notification fires only when the guard has read a time more than the cooldown after
  the stamp of the target, and that stamp is not older than any earlier down notification
  of the target.
\<close>

lemma statusAlerts_alertInv:
  assumes inv: "alertInv (cooldownMs config) T w"
    and "T \<le> now_downGuard env" and "now_downGuard env \<le> now_downStamp env"
  shows "alertInv (cooldownMs config) (now_downStamp env)
           (statusAlerts urlConfig config prevState result env w)"
proof -
  let ?c = "cooldownMs config" and ?nm = "name urlConfig"
  let ?g = "now_downGuard env" and ?s = "now_downStamp env"
  have weak: "alertInv ?c ?s w"
    using inv assms(2,3) by (auto intro: alertInv_mono [of ?c T w])
  show ?thesis
  proof (cases "\<not> success result \<and> \<not> wasDown prevState \<and> ?c < ?g - jsOr (lastAlert w ?nm) 0")
    case fire: True
    let ?w' = "w\<lparr>sent := sent w @ [NotifyDown ?nm ?g],
                   incidents := addIncident ?nm (error result) (timestamp result)
                                  (now_addIncident env) (incidents w),
                   lastAlert := (lastAlert w)(?nm \<mapsto> ?s)\<rparr>"
    have eq: "statusAlerts urlConfig config prevState result env w = ?w'"
      using fire by (simp add: statusAlerts_def Let_def cooldownMs_def)
    have old: "?c < ?g - t" if "t \<in> set (downTimes ?nm (sent w))" for t
    proof -
      from alertInv_covered [OF inv that] obtain v where v: "lastAlert w ?nm = Some v" "t \<le> v"
        by blast
      with fire have "?c < ?g - v" by simp
      with v(2) show ?thesis by simp
    qed
    have la: "lastAlert ?w' = (lastAlert w)(?nm \<mapsto> ?s)"
      and se: "sent ?w' = sent w @ [NotifyDown ?nm ?g]"
      by simp_all
    show ?thesis
      unfolding eq
    proof (rule alertInvI)
      fix k v assume "lastAlert ?w' k = Some v"
      then have "v = ?s \<or> lastAlert w k = Some v"
        unfolding la by (auto split: if_splits)
      then show "v \<le> ?s" using alertInv_stamp [OF weak] by auto
    next
      fix n
      show "spaced ?c (downTimes n (sent ?w'))"
      proof (cases "n = ?nm")
        case True
        then show ?thesis
          unfolding se using alertInv_spaced [OF inv, of ?nm] old by (simp add: spaced_snoc)
      next
        case False
        then show ?thesis
          unfolding se using alertInv_spaced [OF inv, of n] by simp
      qed
    next
      fix n t assume t: "t \<in> set (downTimes n (sent ?w'))"
      show "\<exists>v. lastAlert ?w' n = Some v \<and> t \<le> v"
      proof (cases "n = ?nm")
        case True
        from t True have "t \<in> set (downTimes ?nm (sent w)) \<or> t = ?g"
          unfolding se by auto
        then have "t \<le> ?s"
        proof
          assume "t \<in> set (downTimes ?nm (sent w))"
          from alertInv_covered [OF inv this] assms(2,3) show ?thesis by auto
        next
          assume "t = ?g"
          with assms(3) show ?thesis by simp
        qed
        with True show ?thesis unfolding la by simp
      next
        case False
        with t have "t \<in> set (downTimes n (sent w))" unfolding se by simp
        from alertInv_covered [OF inv this] False show ?thesis unfolding la by auto
      qed
    qed
  next
    case False
    then have "lastAlert (statusAlerts urlConfig config prevState result env w) = lastAlert w"
      and "downTimes n (sent (statusAlerts urlConfig config prevState result env w)) =
           downTimes n (sent w)" for n
      by (auto simp: statusAlerts_def Let_def cooldownMs_def)
    with weak show ?thesis by (simp add: alertInv_def)
  qed
qed

lemma sslAlerts_alertInv:
  assumes inv: "alertInv c T w" and "T \<le> now_sslStamp env"
  shows "alertInv c (now_sslStamp env) (sslAlerts urlConfig result env w)"
proof -
  let ?s = "now_sslStamp env"
  have weak: "alertInv c ?s w" using assms by (rule alertInv_mono)
  have "lastAlert (sslAlerts urlConfig result env w) = lastAlert w \<or>
        lastAlert (sslAlerts urlConfig result env w) =
          (lastAlert w)(sslAlertKey (name urlConfig) \<mapsto> ?s)"
    by (simp add: sslAlerts_def Let_def split: option.splits)
  then show ?thesis
  proof
    assume "lastAlert (sslAlerts urlConfig result env w) = lastAlert w"
    with weak show ?thesis by (simp add: alertInv_def)
  next
    assume upd: "lastAlert (sslAlerts urlConfig result env w) =
          (lastAlert w)(sslAlertKey (name urlConfig) \<mapsto> ?s)"
    show ?thesis
    proof (rule alertInvI)
      fix k v assume "lastAlert (sslAlerts urlConfig result env w) k = Some v"
      then have "v = ?s \<or> lastAlert w k = Some v"
        unfolding upd by (auto split: if_splits)
      then show "v \<le> ?s" using alertInv_stamp [OF weak] by auto
    next
      fix n show "spaced c (downTimes n (sent (sslAlerts urlConfig result env w)))"
        using alertInv_spaced [OF weak, of n] by simp
    next
      fix n t assume "t \<in> set (downTimes n (sent (sslAlerts urlConfig result env w)))"
      then have "t \<in> set (downTimes n (sent w))" by simp
      from alertInv_covered [OF weak this]
      show "\<exists>v. lastAlert (sslAlerts urlConfig result env w) n = Some v \<and> t \<le> v"
        unfolding upd by auto
    qed
  qed
qed

lemma sorted_readings:
  assumes "sorted (T # readings env)"
  shows "T \<le> now_downGuard env" and "now_downGuard env \<le> now_downStamp env"
    and "now_downStamp env \<le> now_sslStamp env" and "now_sslStamp env \<le> now_update env"
    and "T \<le> now_update env"
  using assms by (simp_all add: readings_def)

lemma runCheck_alertInv:
  assumes inv: "alertInv c T w"
    and clock: "sorted (T # readings env)"
    and cool: "\<forall>config. getConfig = Some config \<longrightarrow> cooldownMs config = c"
    and run: "runCheck urlConfig getConfig env w = Inr w'"
  shows "alertInv c (now_update env) w'"
proof (cases getConfig)
  case None
  with run have "w' = w" by (simp add: runCheck_def)
  moreover have "T \<le> now_update env" using sorted_readings(5) [OF clock] .
  ultimately show ?thesis using inv alertInv_mono by blast
next
  case (Some config)
  with cool have c: "cooldownMs config = c" by simp
  from run Some obtain result where
    res: "fst (checkWithRetry urlConfig config (probes env)) = Some result"
    by (cases "fst (checkWithRetry urlConfig config (probes env))") (simp_all add: runCheck_undefined)
  let ?r = "recorded urlConfig result env w"
  let ?s = "statusAlerts urlConfig config (urlStates w (name urlConfig)) result env ?r"
  let ?l = "sslAlerts urlConfig result env ?s"
  have w': "w' = updateStatusPage config (now_update env) ?l"
    using run Some runCheck_result [OF res, of w] by simp
  note ord = sorted_readings [OF clock]
  have "alertInv (cooldownMs config) T ?r"
    using inv c by (simp add: alertInv_cong [of ?r w])
  then have "alertInv (cooldownMs config) (now_downStamp env) ?s"
    using ord(1,2) by (rule statusAlerts_alertInv)
  then have "alertInv (cooldownMs config) (now_sslStamp env) ?l"
    using ord(3) by (rule sslAlerts_alertInv)
  then have "alertInv c (now_update env) ?l"
    using ord(4) c alertInv_mono by blast
  then show ?thesis
    unfolding w' by (simp add: alertInv_cong [of "updateStatusPage config (now_update env) ?l" ?l])
qed

lemma last_readings: "readings env = butlast (readings env) @ [now_update env]"
  by (simp add: readings_def)

lemma sorted_split_readings:
  assumes "sorted (T # readings env @ rest)"
  shows "sorted (T # readings env)" and "sorted (now_update env # rest)"
proof -
  from assms show "sorted (T # readings env)"
    by (simp add: sorted_append)
  have "sorted (readings env @ rest)" using assms by simp
  then have "sorted ((butlast (readings env) @ [now_update env]) @ rest)"
    using last_readings [of env] by simp
  then show "sorted (now_update env # rest)"
    by (simp add: sorted_append del: append_assoc)
qed

lemma runCycles_alertInv:
  "alertInv c T w \<Longrightarrow>
   sorted (T # concat (map (\<lambda>cy. readings (cy_env cy)) cycles)) \<Longrightarrow>
   \<forall>cy \<in> set cycles. \<forall>config. cy_config cy = Some config \<longrightarrow> cooldownMs config = c \<Longrightarrow>
   \<exists>T'. alertInv c T' (runCycles cycles w)"
proof (induction cycles arbitrary: T w)
  case Nil
  then show ?case by auto
next
  case (Cons cy cycles)
  show ?case
  proof (cases "runCheck (cy_target cy) (cy_config cy) (cy_env cy) w")
    case (Inl e)
    with Cons.prems(1) show ?thesis by auto
  next
    case (Inr w')
    from Cons.prems(2)
    have clock: "sorted (T # readings (cy_env cy) @ concat (map (\<lambda>cy. readings (cy_env cy)) cycles))"
      by simp
    have "alertInv c (now_update (cy_env cy)) w'"
      using Cons.prems(1) sorted_split_readings(1) [OF clock] _ Inr
      by (rule runCheck_alertInv) (use Cons.prems(3) in simp)
    from Cons.IH [OF this sorted_split_readings(2) [OF clock]] Cons.prems(3) Inr
    show ?thesis by simp
  qed
qed

lemma sorted_lower: "sorted xs \<Longrightarrow> \<exists>T::int. sorted (T # xs)"
  by (cases xs) auto

lemma sslAlertKey_differs: "sslAlertKey nm \<noteq> nm"
proof
  assume "sslAlertKey nm = nm"
  then have "length (sslAlertKey nm) = length nm" by simp
  then show False by (simp add: sslAlertKey_def)
qed

lemma sslAlerts_lastAlert_own:
  "lastAlert (sslAlerts urlConfig result env w) (name urlConfig) = lastAlert w (name urlConfig)"
  using sslAlertKey_differs [of "name urlConfig"]
  by (simp add: sslAlerts_def Let_def split: option.splits)

lemma getChecks_update: "getChecks nm (AList.update nm cs store) = cs"
  by (simp add: getChecks_def update_conv')

lemma getChecks_recordCheck:
  "getChecks nm (recordCheck nm result now retention store) =
     filter (\<lambda>check. now - retention * dayMs < c_timestamp check)
       (getChecks nm store @ [storedOf result])"
  by (simp add: recordCheck_def Let_def getChecks_prune getChecks_update)
     (simp add: getChecks_def)

text \<open>
  Check cycles run one after the other from the start of the process, with a clock
  that does not go backwards and a cooldown of \<open>c\<close> milliseconds in every configuration
  they read. Then any two down notifications of one target are more than \<open>c\<close> apart,
  however often the target goes down, up and down again in between. And a cycle that
  finds a target down that was not down before, at most the cooldown after the last alert
  stamp of the target, sends no down notification and opens no incident, and keeps the
  stamp; it still sets the target's state to down and appends the check to the target's
  history.
\<close>

lemma serial_cycles_respect_cooldown:
  "(sorted (concat (map (\<lambda>cy. readings (cy_env cy)) cycles)) \<and>
    (\<forall>cy \<in> set cycles. \<forall>config. cy_config cy = Some config \<longrightarrow> cooldownMs config = c) \<longrightarrow>
      spaced c (downTimes nm (sent (runCycles cycles (startWorld loaded retention))))) \<and>
   (fst (checkWithRetry urlConfig config (probes env)) = Some result \<and> \<not> success result \<and>
    \<not> wasDown (urlStates w (name urlConfig)) \<and>
    now_downGuard env - jsOr (lastAlert w (name urlConfig)) 0 \<le> cooldownMs config \<longrightarrow>
      (\<exists>w'. runCheck urlConfig (Some config) env w = Inr w' \<and>
            (\<forall>n. downTimes n (sent w') = downTimes n (sent w)) \<and>
            incidents w' = incidents w \<and>
            lastAlert w' (name urlConfig) = lastAlert w (name urlConfig) \<and>
            map_option us_status (urlStates w' (name urlConfig)) = Some StatusDown \<and>
            getChecks (name urlConfig) (checks w') =
              filter (\<lambda>check. now_prune env - retentionDays w * dayMs < c_timestamp check)
                (getChecks (name urlConfig) (checks w) @ [storedOf result])))"
proof (intro conjI impI)
  assume a: "sorted (concat (map (\<lambda>cy. readings (cy_env cy)) cycles)) \<and>
    (\<forall>cy \<in> set cycles. \<forall>config. cy_config cy = Some config \<longrightarrow> cooldownMs config = c)"
  then obtain T where "sorted (T # concat (map (\<lambda>cy. readings (cy_env cy)) cycles))"
    using sorted_lower by blast
  with a alertInv_start [of c T loaded retention]
  obtain T' where "alertInv c T' (runCycles cycles (startWorld loaded retention))"
    using runCycles_alertInv [of c T "startWorld loaded retention" cycles] by blast
  then show "spaced c (downTimes nm (sent (runCycles cycles (startWorld loaded retention))))"
    by (rule alertInv_spaced)
next
  assume a: "fst (checkWithRetry urlConfig config (probes env)) = Some result \<and> \<not> success result \<and>
    \<not> wasDown (urlStates w (name urlConfig)) \<and>
    now_downGuard env - jsOr (lastAlert w (name urlConfig)) 0 \<le> cooldownMs config"
  let ?r = "recorded urlConfig result env w"
  let ?w' = "updateStatusPage config (now_update env) (sslAlerts urlConfig result env ?r)"
  have quiet: "statusAlerts urlConfig config (urlStates w (name urlConfig)) result env ?r = ?r"
    using a by (intro statusAlerts_within_cooldown) (simp_all add: cooldownMs_def)
  have run: "runCheck urlConfig (Some config) env w = Inr ?w'"
    using a quiet by (simp add: runCheck_result)
  have "\<forall>n. downTimes n (sent ?w') = downTimes n (sent w)" by simp
  moreover have "incidents ?w' = incidents w" by simp
  moreover have "lastAlert ?w' (name urlConfig) = lastAlert w (name urlConfig)"
    by (simp add: sslAlerts_lastAlert_own)
  moreover have "map_option us_status (urlStates ?w' (name urlConfig)) = Some StatusDown"
    using a by (simp add: recorded_def)
  moreover have "getChecks (name urlConfig) (checks ?w') =
      filter (\<lambda>check. now_prune env - retentionDays w * dayMs < c_timestamp check)
        (getChecks (name urlConfig) (checks w) @ [storedOf result])"
    by (simp add: recorded_def getChecks_recordCheck)
  ultimately show "\<exists>w'. runCheck urlConfig (Some config) env w = Inr w' \<and>
            (\<forall>n. downTimes n (sent w') = downTimes n (sent w)) \<and>
            incidents w' = incidents w \<and>
            lastAlert w' (name urlConfig) = lastAlert w (name urlConfig) \<and>
            map_option us_status (urlStates w' (name urlConfig)) = Some StatusDown \<and>
            getChecks (name urlConfig) (checks w') =
              filter (\<lambda>check. now_prune env - retentionDays w * dayMs < c_timestamp check)
                (getChecks (name urlConfig) (checks w) @ [storedOf result])"
    using run by blast
qed

section \<open>Evaluation of check cycles\<close>

lemma plain_responds:
  "plain urlConfig \<Longrightarrow> success (checkUrl urlConfig noSettings (respondsIn t ms 200 cert))"
  by (simp add: plain_def checkUrl_def respondsIn_def jsOrList_def Let_def)

lemma defaults_emptyConfig:
  "0 < jsOr (retry_count (alertsOf emptyConfig)) 3"
  "jsOr (retry_count (alertsOf emptyConfig)) 3 = 3"
  "settingsOf emptyConfig = noSettings"
  "cooldownMs emptyConfig = 300000"
  by (simp_all add: emptyConfig_def alertsOf_def settingsOf_def noAlerts_def jsOr_def
      cooldownMs_def)

lemma runCheck_failing:
  assumes "0 < jsOr (retry_count (alertsOf config)) 3"
  shows "runCheck urlConfig (Some config) (failing t) w =
     Inr (updateStatusPage config t
            (statusAlerts urlConfig config (urlStates w (name urlConfig))
               (checkUrl urlConfig (settingsOf config) (rejectsIn t 5 ''ECONNREFUSED'')) (failing t)
               (recorded urlConfig
                  (checkUrl urlConfig (settingsOf config) (rejectsIn t 5 ''ECONNREFUSED''))
                  (failing t) w)))"
proof -
  let ?result = "checkUrl urlConfig (settingsOf config) (rejectsIn t 5 ''ECONNREFUSED'')"
  have "fst (checkWithRetry urlConfig config (probes (failing t))) = Some ?result"
    using checkWithRetry_all_fail [OF assms, of urlConfig "probes (failing t)"]
    by (simp add: failing_def cycleAt_def rejected_fails)
  from runCheck_result [OF this, of w] show ?thesis
    by (simp add: failing_def cycleAt_def sslAlerts_def rejected_fails)
qed

lemma runCheck_passing:
  assumes "plain urlConfig"
  shows "runCheck urlConfig (Some emptyConfig) (passing t cert) w =
     Inr (updateStatusPage emptyConfig t
            (sslAlerts urlConfig (checkUrl urlConfig noSettings (respondsIn t 5 200 cert))
               (passing t cert)
               (statusAlerts urlConfig emptyConfig (urlStates w (name urlConfig))
                  (checkUrl urlConfig noSettings (respondsIn t 5 200 cert)) (passing t cert)
                  (recorded urlConfig (checkUrl urlConfig noSettings (respondsIn t 5 200 cert))
                     (passing t cert) w))))"
proof -
  have "fst (checkWithRetry urlConfig emptyConfig (probes (passing t cert))) =
        Some (checkUrl urlConfig noSettings (respondsIn t 5 200 cert))"
    using checkWithRetry_first_success [of emptyConfig urlConfig "probes (passing t cert)"]
      plain_responds [OF assms, of t 5 cert]
    by (simp add: passing_def cycleAt_def defaults_emptyConfig)
  from runCheck_result [OF this, of w] show ?thesis
    by (simp add: passing_def cycleAt_def)
qed

lemmas evaluate =
  statusAlerts_def sslAlerts_def recorded_def Let_def wasDown_def startWorld_def
  rejected_fails emptyConfig_def alertsOf_def settingsOf_def noAlerts_def jsOr_def
  failing_def passing_def cycleAt_def exampleTarget_def
  checkUrl_def respondsIn_def rejectsIn_def jsOrList_def

lemma plain_examples: "plain exampleTarget" "plain sslNamedTarget" "plain httpsTarget"
  by (simp_all add: plain_def exampleTarget_def sslNamedTarget_def httpsTarget_def)

lemma flap_downTimes:
  "downTimes ''A'' (sent (runCycles flapCycles (startWorld [] 5))) = [1000000, 1400000]"
  by (simp add: flapCycles_def cycleOf_def runCheck_failing runCheck_passing
        defaults_emptyConfig plain_examples)
     (simp add: evaluate)

text \<open>
  C7. The SSL-expiry notification is claimed to fire whenever the certificate has at most
  14 days left and the target had no SSL-expiry notification in the last 24 hours, under
  a suppression key of its own. The key is the string \<open>ssl-\<close> followed by the target's
  name, in the same map as the status keys, which are the names themselves. After a down
  notification of a target named \<open>ssl-A\<close>, the first SSL-expiry notification of target
  \<open>A\<close> is suppressed, though none has ever fired for it; without the other target's
  cycle the same check does fire it.
\<close>

theorem ssl_alert_key_collides:
  "sent (runCycles collisionCycles (startWorld [] 5)) = [NotifyDown ''ssl-A'' 1700000000000] \<and>
   sslTimes ''A'' (sent (runCycles collisionCycles (startWorld [] 5))) = [] \<and>
   sslTimes ''A'' (sent (runCycles (tl collisionCycles) (startWorld [] 5))) = [1700000060000]"
  by (simp add: collisionCycles_def cycleOf_def runCheck_failing runCheck_passing
        defaults_emptyConfig plain_examples)
     (simp add: evaluate sslNamedTarget_def httpsTarget_def expiringCert_def sslAlertKey_def
        SSL_WARNING_DAYS_def)

text \<open>
  C5. Incidents are claimed to be pruned after a configurable retention window.
  \<open>addIncident\<close> prunes with a window of 90 days that no setting changes: under a
  configuration that asks for one day of retention, incidents opened two and three days
  ago, resolved or not, are still in the ledger after a call that opens an incident.
\<close>

theorem incident_window_not_configurable:
  "\<exists>w'. runCheck exampleTarget (Some oneDayConfig) (failing 17280000000) staleLedgerWorld = Inr w' \<and>
         incidents w' =
           opened ''A'' (Some ''ECONNREFUSED'') 17280000000 # incidents staleLedgerWorld"
proof -
  have "0 < jsOr (retry_count (alertsOf oneDayConfig)) 3"
    by (simp add: oneDayConfig_def emptyConfig_def alertsOf_def noAlerts_def jsOr_def)
  from runCheck_failing [OF this, of exampleTarget 17280000000 staleLedgerWorld]
  show ?thesis
    by (simp add: evaluate oneDayConfig_def staleLedgerWorld_def addIncident_def opened_def
        dayMs_def)
qed

lemma serial_cycles_respect_cooldown_example:
  "downTimes ''A'' (sent (runCycles flapCycles (startWorld [] 5))) = [1000000, 1400000] \<and>
   spaced 300000 (downTimes ''A'' (sent (runCycles flapCycles (startWorld [] 5)))) \<and>
   (\<exists>w'. runCheck exampleTarget (Some emptyConfig) (failing 1100000) recoveredWorld = Inr w' \<and>
          downTimes ''A'' (sent w') = [1000000] \<and>
          map_option us_status (urlStates w' ''A'') = Some StatusDown \<and>
          getChecks ''A'' (checks w') =
            [storedOf (checkUrl exampleTarget noSettings (rejectsIn 1100000 5 ''ECONNREFUSED''))])"
proof -
  let ?result = "checkUrl exampleTarget noSettings (rejectsIn 1100000 5 ''ECONNREFUSED'')"
  note inst = serial_cycles_respect_cooldown [of flapCycles 300000 "''A''" "[]" 5
      exampleTarget emptyConfig "failing 1100000" ?result recoveredWorld]
  have clock: "sorted (concat (map (\<lambda>cy. readings (cy_env cy)) flapCycles))"
    by (simp add: flapCycles_def cycleOf_def readings_def failing_def passing_def cycleAt_def)
  have cool: "\<forall>cy \<in> set flapCycles. \<forall>config. cy_config cy = Some config \<longrightarrow>
      cooldownMs config = 300000"
    by (simp add: flapCycles_def cycleOf_def defaults_emptyConfig)
  from inst clock cool
  have sp: "spaced 300000 (downTimes ''A'' (sent (runCycles flapCycles (startWorld [] 5))))"
    by blast
  have res: "fst (checkWithRetry exampleTarget emptyConfig (probes (failing 1100000))) = Some ?result"
    using checkWithRetry_all_fail [of emptyConfig exampleTarget "probes (failing 1100000)"]
    by (simp add: failing_def cycleAt_def rejected_fails defaults_emptyConfig)
  have pre: "\<not> success ?result" "\<not> wasDown (urlStates recoveredWorld (name exampleTarget))"
    "now_downGuard (failing 1100000) - jsOr (lastAlert recoveredWorld (name exampleTarget)) 0
       \<le> cooldownMs emptyConfig"
    by (simp_all add: rejected_fails wasDown_def recoveredWorld_def upState_def exampleTarget_def
        failing_def cycleAt_def defaults_emptyConfig)
  from inst res pre obtain w' where w':
    "runCheck exampleTarget (Some emptyConfig) (failing 1100000) recoveredWorld = Inr w'"
    "\<forall>n. downTimes n (sent w') = downTimes n (sent recoveredWorld)"
    "map_option us_status (urlStates w' (name exampleTarget)) = Some StatusDown"
    "getChecks (name exampleTarget) (checks w') =
       filter (\<lambda>check. now_prune (failing 1100000) - retentionDays recoveredWorld * dayMs
                 < c_timestamp check)
         (getChecks (name exampleTarget) (checks recoveredWorld) @ [storedOf ?result])"
    by blast
  from w'(2) have d: "downTimes ''A'' (sent w') = [1000000]"
    by (simp add: recoveredWorld_def)
  from w'(3) have u: "map_option us_status (urlStates w' ''A'') = Some StatusDown"
    by (simp add: exampleTarget_def)
  from w'(4) have h: "getChecks ''A'' (checks w') = [storedOf ?result]"
    by (simp add: exampleTarget_def recoveredWorld_def startWorld_def getChecks_def failing_def
        cycleAt_def dayMs_def storedOf_def rejected_fails)
  from flap_downTimes sp w'(1) d u h show ?thesis by blast
qed

section \<open>Check cycles that overlap\<close>

lemma resumeAll_Finished: "t_stage task = Finished \<Longrightarrow> resumeAll n task w = Inr w"
  by (induction n) (simp_all add: resume_def Let_def)

lemma resumeAll_AwaitNotifySsl:
  "t_stage task = AwaitNotifySsl \<Longrightarrow>
   resumeAll (Suc n) task w =
     Inr (updateStatusPage (t_config task) (now_update (t_env task))
            (w\<lparr>lastAlert := (lastAlert w)(sslAlertKey (name (t_target task)) \<mapsto>
                                now_sslStamp (t_env task))\<rparr>))"
  by (simp add: resume_def Let_def resumeAll_Finished)

lemma toSslAlert_world:
  assumes "t_target task = urlConfig" "t_env task = env" "t_config task = config"
  shows "resumeAll (Suc n) (fst (toSslAlert task result w)) (snd (toSslAlert task result w)) =
     Inr (updateStatusPage config (now_update env) (sslAlerts urlConfig result env w))"
proof -
  have "t_stage (fst (toSslAlert task result w)) = Finished \<and>
          snd (toSslAlert task result w) =
            updateStatusPage config (now_update env) (sslAlerts urlConfig result env w) \<or>
        t_stage (fst (toSslAlert task result w)) = AwaitNotifySsl \<and>
          t_config (fst (toSslAlert task result w)) = config \<and>
          t_env (fst (toSslAlert task result w)) = env \<and>
          t_target (fst (toSslAlert task result w)) = urlConfig \<and>
          updateStatusPage config (now_update env)
            (snd (toSslAlert task result w)
               \<lparr>lastAlert := (lastAlert (snd (toSslAlert task result w)))
                  (sslAlertKey (name urlConfig) \<mapsto> now_sslStamp env)\<rparr>) =
            updateStatusPage config (now_update env) (sslAlerts urlConfig result env w)"
    using assms by (auto simp: toSslAlert_def sslAlerts_def Let_def split: option.splits)
  then show ?thesis
    by (auto simp: resumeAll_Finished resumeAll_AwaitNotifySsl simp del: resumeAll.simps)
qed

lemma resumeAll_toSslAlert:
  "t_target task = urlConfig \<Longrightarrow> t_env task = env \<Longrightarrow> t_config task = config \<Longrightarrow>
   (case toSslAlert task result w of (task', w') \<Rightarrow> resumeAll (Suc n) task' w') =
     Inr (updateStatusPage config (now_update env) (sslAlerts urlConfig result env w))"
  using toSslAlert_world [of task urlConfig env config n result w]
  by (simp add: case_prod_unfold)

text \<open>
  A cycle that is resumed from each of its three possible \<open>await\<close>s with nothing in
  between is \<open>runCheck\<close> as defined above.
\<close>

lemma runCheck_uninterrupted:
  assumes "startCheck urlConfig (Some config) env w = Some task"
  shows "runCheck urlConfig (Some config) env w = resumeAll 3 task w"
proof -
  from assms have task: "task = \<lparr>t_target = urlConfig, t_config = config, t_env = env,
      t_prevState = urlStates w (name urlConfig), t_stage = AwaitCheck\<rparr>"
    by (simp add: startCheck_def)
  have three: "resumeAll 3 t v = (case resume t v of Inl e \<Rightarrow> Inl e
      | Inr (task', w') \<Rightarrow> resumeAll (Suc (Suc 0)) task' w')" for t v
    by (simp add: numeral_3_eq_3)
  show ?thesis
  proof (cases "fst (checkWithRetry urlConfig config (probes env))")
    case None
    then show ?thesis
      by (simp add: task runCheck_undefined resume_def three)
  next
    case (Some result)
    let ?r = "recorded urlConfig result env w"
    let ?down = "task\<lparr>t_stage := AwaitNotifyDown result\<rparr>"
    let ?up = "task\<lparr>t_stage := AwaitNotifyUp result\<rparr>"
    have fields: "t_target ?down = urlConfig" "t_env ?down = env" "t_config ?down = config"
      "t_target ?up = urlConfig" "t_env ?up = env" "t_config ?up = config"
      by (simp_all add: task)
    have after_down: "resumeAll (Suc (Suc 0)) ?down v =
        Inr (updateStatusPage config (now_update env) (sslAlerts urlConfig result env
          (v\<lparr>incidents := addIncident (name urlConfig) (error result) (timestamp result)
                               (now_addIncident env) (incidents v),
              lastAlert := (lastAlert v)(name urlConfig \<mapsto> now_downStamp env)\<rparr>)))" for v
    proof -
      let ?v = "v\<lparr>incidents := addIncident (name urlConfig) (error result) (timestamp result)
                               (now_addIncident env) (incidents v),
              lastAlert := (lastAlert v)(name urlConfig \<mapsto> now_downStamp env)\<rparr>"
      have "resume ?down v = Inr (toSslAlert ?down result ?v)"
        by (simp add: resume_def Let_def task)
      then have "resumeAll (Suc (Suc 0)) ?down v =
          (case toSslAlert ?down result ?v of (task', w') \<Rightarrow> resumeAll (Suc 0) task' w')"
        by (simp del: resumeAll.simps add: resumeAll.simps(2) [of "Suc 0"])
      also have "\<dots> = Inr (updateStatusPage config (now_update env)
          (sslAlerts urlConfig result env ?v))"
        using fields(1-3) by (rule resumeAll_toSslAlert)
      finally show ?thesis .
    qed
    have after_up: "resumeAll (Suc (Suc 0)) ?up v =
        Inr (updateStatusPage config (now_update env) (sslAlerts urlConfig result env
          (v\<lparr>incidents := resolveIncident (name urlConfig) (now_resolve env) (incidents v)\<rparr>)))"
      for v
    proof -
      let ?v = "v\<lparr>incidents := resolveIncident (name urlConfig) (now_resolve env) (incidents v)\<rparr>"
      have "resume ?up v = Inr (toSslAlert ?up result ?v)"
        by (simp add: resume_def Let_def task)
      then have "resumeAll (Suc (Suc 0)) ?up v =
          (case toSslAlert ?up result ?v of (task', w') \<Rightarrow> resumeAll (Suc 0) task' w')"
        by (simp del: resumeAll.simps add: resumeAll.simps(2) [of "Suc 0"])
      also have "\<dots> = Inr (updateStatusPage config (now_update env)
          (sslAlerts urlConfig result env ?v))"
        using fields(4-6) by (rule resumeAll_toSslAlert)
      finally show ?thesis .
    qed
    have direct: "(case toSslAlert task result v of (task', w') \<Rightarrow> resumeAll (Suc (Suc 0)) task' w') =
        Inr (updateStatusPage config (now_update env) (sslAlerts urlConfig result env v))" for v
      by (rule resumeAll_toSslAlert) (simp_all add: task)
    let ?s = "statusAlerts urlConfig config (urlStates w (name urlConfig)) result env ?r"
    let ?goal = "Inr (updateStatusPage config (now_update env) (sslAlerts urlConfig result env ?s))"
    have run: "runCheck urlConfig (Some config) env w = ?goal"
      by (rule runCheck_result [OF Some])
    let ?D = "\<not> success result \<and> \<not> wasDown (urlStates w (name urlConfig)) \<and>
        jsOr (cooldown_period (alertsOf config)) 300 * 1000
           < now_downGuard env - jsOr (lastAlert w (name urlConfig)) 0"
    let ?U = "success result \<and> wasDown (urlStates w (name urlConfig)) \<and>
        alert_on_recovery (alertsOf config) \<noteq> Some False"
    consider (down) ?D | (up) ?U | (quiet) "\<not> ?D" "\<not> ?U"
      by blast
    then have "resumeAll 3 task w = ?goal"
    proof cases
      case down
      let ?v = "?r\<lparr>sent := sent ?r @ [NotifyDown (name urlConfig) (now_downGuard env)]\<rparr>"
      have "resume task w = Inr (?down, ?v)"
        using down by (simp add: resume_def Let_def task Some recorded_def)
      then have "resumeAll 3 task w = resumeAll (Suc (Suc 0)) ?down ?v"
        by (simp add: three del: resumeAll.simps)
      also have "\<dots> = ?goal"
        using down by (simp add: after_down statusAlerts_def Let_def del: resumeAll.simps)
      finally show ?thesis .
    next
      case up
      let ?v = "?r\<lparr>sent := sent ?r @ [NotifyUp (name urlConfig)]\<rparr>"
      have "resume task w = Inr (?up, ?v)"
        using up by (simp add: resume_def Let_def task Some recorded_def)
      then have "resumeAll 3 task w = resumeAll (Suc (Suc 0)) ?up ?v"
        by (simp add: three del: resumeAll.simps)
      also have "\<dots> = ?goal"
        using up by (simp add: after_up statusAlerts_def Let_def del: resumeAll.simps)
      finally show ?thesis .
    next
      case quiet
      then have same: "?s = ?r"
        by (auto simp: statusAlerts_def Let_def recorded_def)
      have "resume task w = Inr (toSslAlert task result ?r)"
        using quiet by (auto simp: resume_def Let_def task Some recorded_def)
      then have "resumeAll 3 task w =
          (case toSslAlert task result ?r of (task', w') \<Rightarrow> resumeAll (Suc (Suc 0)) task' w')"
        by (simp add: three del: resumeAll.simps)
      also have "\<dots> = ?goal"
        using direct [of ?r] same by simp
      finally show ?thesis .
    qed
    with run show ?thesis by simp
  qed
qed

lemma checkWithRetry_third_of_three:
  assumes "jsOr (retry_count (alertsOf config)) 3 = 3"
    and "\<not> success (checkUrl urlConfig (settingsOf config) (envs 0))"
    and "\<not> success (checkUrl urlConfig (settingsOf config) (envs 1))"
  shows "fst (checkWithRetry urlConfig config envs) =
           Some (checkUrl urlConfig (settingsOf config) (envs 2))"
  using assms
  by (simp add: checkWithRetry_def Let_def retryLoop.simps [of _ 3 _ 0]
        retryLoop.simps [of _ 3 _ 1] retryLoop.simps [of _ 3 _ 2] retryLoop.simps [of _ 3 _ 3])



lemma resume_down_alert:
  assumes "t_stage task = AwaitCheck"
    and "fst (checkWithRetry (t_target task) (t_config task) (probes (t_env task))) = Some result"
    and "\<not> success result" "\<not> wasDown (t_prevState task)"
    and "jsOr (cooldown_period (alertsOf (t_config task))) 300 * 1000
           < now_downGuard (t_env task) - jsOr (lastAlert w (name (t_target task))) 0"
  shows "resume task w =
           Inr (task\<lparr>t_stage := AwaitNotifyDown result\<rparr>,
                (recorded (t_target task) result (t_env task) w)
                  \<lparr>sent := sent w @ [NotifyDown (name (t_target task))
                                       (now_downGuard (t_env task))]\<rparr>)"
  using assms by (simp add: resume_def Let_def recorded_def)

lemma resume_quiet:
  assumes "t_stage task = AwaitCheck"
    and "fst (checkWithRetry (t_target task) (t_config task) (probes (t_env task))) = Some result"
    and "success result" "\<not> wasDown (t_prevState task)" "sslInfo result = None"
  shows "resume task w =
           Inr (task\<lparr>t_stage := Finished\<rparr>,
                updateStatusPage (t_config task) (now_update (t_env task))
                  (recorded (t_target task) result (t_env task) w))"
  using assms by (simp add: resume_def Let_def recorded_def toSslAlert_def)

lemma resume_notified_down:
  assumes "t_stage task = AwaitNotifyDown result" "sslInfo result = None"
  shows "resume task w =
           Inr (task\<lparr>t_stage := Finished\<rparr>,
                updateStatusPage (t_config task) (now_update (t_env task))
                  (w\<lparr>incidents := addIncident (name (t_target task)) (error result)
                                     (timestamp result) (now_addIncident (t_env task))
                                     (incidents w),
                     lastAlert := (lastAlert w)(name (t_target task) \<mapsto>
                                     now_downStamp (t_env task))\<rparr>))"
  using assms by (simp add: resume_def Let_def toSslAlert_def)

lemma recorded_status:
  "map_option us_status (urlStates (recorded urlConfig result env w) (name urlConfig)) =
     Some (if success result then StatusUp else StatusDown)"
  by (simp add: recorded_def)


lemma bootCycle_result:
  "fst (checkWithRetry exampleTarget emptyConfig (probes bootCycle)) =
     Some (checkUrl exampleTarget noSettings (respondsIn 1700000000000 120 200 None))"
  using checkWithRetry_first_success [of emptyConfig exampleTarget "probes bootCycle"]
  by (simp add: defaults_emptyConfig bootCycle_def cycleAt_def exampleTarget_responds)

lemma slowCycle_result:
  "fst (checkWithRetry exampleTarget emptyConfig (probes slowCycle)) =
     Some (checkUrl exampleTarget noSettings (respondsIn 1700000140000 5000 200 None))"
  using checkWithRetry_third_of_three [of emptyConfig exampleTarget "probes slowCycle"]
  by (simp add: defaults_emptyConfig slowCycle_def cycleAt_def timesOut_def rejected_fails)

lemma failingCycle_result:
  "fst (checkWithRetry exampleTarget emptyConfig (probes failingCycle)) =
     Some (checkUrl exampleTarget noSettings (refuses 1700000140400))"
  using checkWithRetry_third_of_three [of emptyConfig exampleTarget "probes failingCycle"]
  by (simp add: defaults_emptyConfig failingCycle_def refuses_def rejected_fails)

lemma responds_fields:
  "sslInfo (checkUrl urlConfig globalSettings (respondsIn t ms code cert)) = cert"
  by (simp add: checkUrl_def respondsIn_def Let_def)

text \<open>
  C3. Every cycle that takes a target from down to up is claimed to call the recovery
  notification and to resolve the open incident when \<open>alert_on_recovery\<close> is enabled. A
  cycle compares its result with the status it read before its retry loop. A cycle that
  started while the target was up, and succeeds on its third attempt after a later cycle
  has set the status to down, alerted and opened an incident, sets the status from down
  to up through the branch of a target that stayed up: no recovery notification is
  called and the incident stays open, with \<open>alert_on_recovery\<close> at its default.
\<close>

theorem stale_status_skips_recovery:
  "statusOf ''A'' (runSchedule (butlast staleRead) booted) = Some StatusDown \<and>
   statusOf ''A'' (runSchedule staleRead booted) = Some StatusUp \<and>
   alert_on_recovery (alertsOf emptyConfig) \<noteq> Some False \<and>
   sent (world (runSchedule staleRead booted)) = [NotifyDown ''A'' 1700000140600] \<and>
   incidents (world (runSchedule staleRead booted)) =
     [opened ''A'' (Some ''connect ECONNREFUSED'') 1700000140400] \<and>
   map t_stage (tasks (runSchedule staleRead booted)) = [Finished, Finished, Finished]"
proof -
  define r0 where "r0 = checkUrl exampleTarget noSettings (respondsIn 1700000000000 120 200 None)"
  define rx where "rx = checkUrl exampleTarget noSettings (respondsIn 1700000140000 5000 200 None)"
  define ry where "ry = checkUrl exampleTarget noSettings (refuses 1700000140400)"
  define w0 where "w0 = startWorld [] 5"
  define w1 where "w1 = updateStatusPage emptyConfig 1700000000120
    (recorded exampleTarget r0 bootCycle w0)"
  define t0 where "t0 = \<lparr>t_target = exampleTarget, t_config = emptyConfig, t_env = bootCycle,
    t_prevState = None, t_stage = AwaitCheck\<rparr>"
  define tx where "tx = \<lparr>t_target = exampleTarget, t_config = emptyConfig, t_env = slowCycle,
    t_prevState = urlStates w1 ''A'', t_stage = AwaitCheck\<rparr>"
  define ty where "ty = \<lparr>t_target = exampleTarget, t_config = emptyConfig,
    t_env = failingCycle, t_prevState = urlStates w1 ''A'', t_stage = AwaitCheck\<rparr>"
  define w2 where "w2 = (recorded exampleTarget ry failingCycle w1)
    \<lparr>sent := sent w1 @ [NotifyDown ''A'' 1700000140600]\<rparr>"
  define w3 where "w3 = updateStatusPage emptyConfig 1700000141500
    (w2\<lparr>incidents := addIncident ''A'' (error ry) (timestamp ry) 1700000141500 (incidents w2),
        lastAlert := (lastAlert w2)(''A'' \<mapsto> 1700000141500)\<rparr>)"
  define w4 where "w4 = updateStatusPage emptyConfig 1700000145000
    (recorded exampleTarget rx slowCycle w3)"
  have r0: "success r0" "sslInfo r0 = None"
    by (simp_all add: r0_def exampleTarget_responds responds_fields)
  have rx: "success rx" "sslInfo rx = None"
    by (simp_all add: rx_def exampleTarget_responds responds_fields)
  have ry: "\<not> success ry" "sslInfo ry = None" "timestamp ry = 1700000140400"
    "error ry = Some ''connect ECONNREFUSED''"
    by (simp_all add: ry_def refuses_def rejected_fails)
  have nm: "name exampleTarget = ''A''"
    by (simp add: exampleTarget_def)
  have cooldown: "jsOr (cooldown_period (alertsOf emptyConfig)) 300 = 300"
    using defaults_emptyConfig(4) by (simp add: cooldownMs_def)
  have never: "jsOr None 0 = 0"
    by (simp add: jsOr_def)
  have enabled: "alert_on_recovery (alertsOf emptyConfig) \<noteq> Some False"
    by (simp add: emptyConfig_def alertsOf_def noAlerts_def)
  have t0: "t_target t0 = exampleTarget" "t_config t0 = emptyConfig" "t_env t0 = bootCycle"
    "t_prevState t0 = None" "t_stage t0 = AwaitCheck"
    by (simp_all add: t0_def)
  have tx: "t_target tx = exampleTarget" "t_config tx = emptyConfig" "t_env tx = slowCycle"
    "t_prevState tx = urlStates w1 ''A''" "t_stage tx = AwaitCheck"
    by (simp_all add: tx_def)
  have ty: "t_target ty = exampleTarget" "t_config ty = emptyConfig" "t_env ty = failingCycle"
    "t_prevState ty = urlStates w1 ''A''" "t_stage ty = AwaitCheck"
    by (simp_all add: ty_def)
  have c0: "now_update bootCycle = 1700000000120"
    by (simp add: bootCycle_def cycleAt_def)
  have cx: "now_update slowCycle = 1700000145000"
    by (simp add: slowCycle_def cycleAt_def)
  have cy: "now_downGuard failingCycle = 1700000140600"
    "now_addIncident failingCycle = 1700000141500"
    "now_downStamp failingCycle = 1700000141500" "now_update failingCycle = 1700000141500"
    by (simp_all add: failingCycle_def)
  have w0: "sent w0 = []" "lastAlert w0 = Map.empty" "incidents w0 = []"
    "urlStates w0 = Map.empty"
    by (simp_all add: w0_def startWorld_def)
  have w1: "sent w1 = []" "lastAlert w1 = Map.empty" "incidents w1 = []"
    by (simp_all add: w1_def w0)
  have up: "\<not> wasDown (urlStates w1 ''A'')"
    using recorded_status [of exampleTarget r0 bootCycle w0] r0(1)
    by (auto simp: w1_def nm wasDown_def split: option.splits)
  have s0: "resume t0 w0 = Inr (t0\<lparr>t_stage := Finished\<rparr>, w1)"
    using resume_quiet [of t0 r0 w0] bootCycle_result r0
    by (simp add: t0 c0 r0_def [symmetric] w1_def wasDown_def)
  have sy: "resume ty w1 = Inr (ty\<lparr>t_stage := AwaitNotifyDown ry\<rparr>, w2)"
    using resume_down_alert [of ty ry w1] failingCycle_result ry(1) up
    by (simp add: ty cy w1 ry_def [symmetric] w2_def nm cooldown never)
  have sy': "resume (ty\<lparr>t_stage := AwaitNotifyDown ry\<rparr>) w2 = Inr (ty\<lparr>t_stage := Finished\<rparr>, w3)"
    using resume_notified_down [of "ty\<lparr>t_stage := AwaitNotifyDown ry\<rparr>" ry w2] ry(2)
    by (simp add: ty cy w3_def nm)
  have sx: "resume tx w3 = Inr (tx\<lparr>t_stage := Finished\<rparr>, w4)"
    using resume_quiet [of tx rx w3] slowCycle_result rx up
    by (simp add: tx cx rx_def [symmetric] w4_def)
  have st0: "startCheck exampleTarget (Some emptyConfig) bootCycle w0 = Some t0"
    by (simp add: startCheck_def t0_def nm w0)
  have stx: "startCheck exampleTarget (Some emptyConfig) slowCycle w1 = Some tx"
    by (simp add: startCheck_def tx_def nm)
  have sty: "startCheck exampleTarget (Some emptyConfig) failingCycle w1 = Some ty"
    by (simp add: startCheck_def ty_def nm)
  have before: "runSchedule (butlast staleRead) booted =
      \<lparr>world = w3, tasks = [t0\<lparr>t_stage := Finished\<rparr>, tx, ty\<lparr>t_stage := Finished\<rparr>]\<rparr>"
    by (simp add: staleRead_def booted_def w0_def [symmetric] st0 s0 stx sty sy sy')
  have after: "runSchedule staleRead booted =
      \<lparr>world = w4, tasks = [t0\<lparr>t_stage := Finished\<rparr>, tx\<lparr>t_stage := Finished\<rparr>,
                             ty\<lparr>t_stage := Finished\<rparr>]\<rparr>"
    by (simp add: staleRead_def booted_def w0_def [symmetric] st0 s0 stx sty sy sy' sx)
  have down: "map_option us_status (urlStates w3 ''A'') = Some StatusDown"
    using recorded_status [of exampleTarget ry failingCycle w1] ry(1)
    by (simp add: w3_def w2_def nm)
  have up_again: "map_option us_status (urlStates w4 ''A'') = Some StatusUp"
    using recorded_status [of exampleTarget rx slowCycle w3] rx(1)
    by (simp add: w4_def nm)
  have sent: "sent w4 = [NotifyDown ''A'' 1700000140600]"
    by (simp add: w4_def w3_def w2_def w1)
  have incidents: "incidents w4 = [opened ''A'' (Some ''connect ECONNREFUSED'') 1700000140400]"
    by (simp add: w4_def w3_def w2_def w1 ry addIncident_def dayMs_def opened_def)
  show ?thesis
    unfolding statusOf_def before after
    by (simp add: down up_again enabled sent incidents)
qed

section \<open>Hourly averages\<close>

lemma hourStartOf_shift: "hourStartOf (now - i * hourMs) = hourStartOf now - i * hourMs"
proof -
  have "(now - i * hourMs) div hourMs = now div hourMs - i"
    by (simp add: hourMs_def)
  then show ?thesis by (simp add: hourStartOf_def left_diff_distrib)
qed

lemma update_fresh: "k \<notin> fst ` set al \<Longrightarrow> AList.update k v al = al @ [(k, v)]"
  by (induction al) auto

lemma fold_update_fresh:
  "distinct ks \<Longrightarrow> set ks \<inter> fst ` set al = {} \<Longrightarrow>
   fold (\<lambda>k. AList.update k v) ks al = al @ map (\<lambda>k. (k, v)) ks"
proof (induction ks arbitrary: al)
  case Nil
  then show ?case by simp
next
  case (Cons k ks)
  then have "AList.update k v al = al @ [(k, v)]" by (intro update_fresh) auto
  moreover have "set ks \<inter> fst ` set (al @ [(k, v)]) = {}" using Cons.prems by auto
  ultimately show ?case using Cons by simp
qed

lemma distinct_hourKeys: "distinct (hourKeys now hours)"
  by (auto simp: hourKeys_def distinct_map hourMs_def intro!: inj_onI)

lemma sorted_rev_hourKeys: "sorted (rev (hourKeys now hours))"
proof -
  have "sorted (rev (map (\<lambda>i. hourStartOf now - int i * hourMs) [0..<n]))" for n
    by (induction n) (auto simp: hourMs_def)
  then show ?thesis by (simp add: hourKeys_def)
qed

lemma sort_hourKeys: "sort (hourKeys now hours) = rev (hourKeys now hours)"
  by (rule sorted_distinct_set_unique)
     (simp_all add: distinct_hourKeys sorted_rev_hourKeys)

lemma initial_buckets:
  "fold (\<lambda>i. AList.update (hourStartOf (now - i * hourMs)) emptyBucket) (map int [0..<nat hours]) []
   = map (\<lambda>k. (k, emptyBucket)) (hourKeys now hours)"
proof -
  have "fold (\<lambda>i. AList.update (hourStartOf (now - i * hourMs)) emptyBucket) (map int [0..<nat hours]) []
      = fold (\<lambda>k. AList.update k emptyBucket) (hourKeys now hours) []"
    by (simp add: hourKeys_def fold_map comp_def hourStartOf_shift)
  also have "\<dots> = [] @ map (\<lambda>k. (k, emptyBucket)) (hourKeys now hours)"
    by (rule fold_update_fresh) (simp_all add: distinct_hourKeys)
  finally show ?thesis by simp
qed

lemma keys_fillBucket: "map fst (fillBucket check buckets) = map fst buckets"
proof (cases "map_of buckets (hourStartOf (c_timestamp check))")
  case None
  then show ?thesis by (simp add: fillBucket_def)
next
  case (Some bucket)
  then have "hourStartOf (c_timestamp check) \<in> fst ` set buckets"
    by (metis fst_conv image_eqI map_of_SomeD)
  with Some show ?thesis by (simp add: fillBucket_def update_keys)
qed

lemma keys_fold_fillBucket: "map fst (fold fillBucket cs buckets) = map fst buckets"
  by (induction cs arbitrary: buckets) (simp_all add: keys_fillBucket)

lemma map_of_fillBucket:
  "map_of (fillBucket check buckets) k =
     (if hourStartOf (c_timestamp check) = k then map_option (addToBucket check) (map_of buckets k)
      else map_of buckets k)"
  by (simp add: fillBucket_def Let_def update_conv' split: option.splits)

lemma map_of_fold_fillBucket:
  "map_of (fold fillBucket cs buckets) k =
     map_option (fold addToBucket (filter (\<lambda>c. hourStartOf (c_timestamp c) = k) cs))
       (map_of buckets k)"
  by (induction cs arbitrary: buckets)
     (simp_all add: map_of_fillBucket option.map_comp comp_def option.map_id)

lemma fold_addToBucket:
  "fold addToBucket cs b =
     \<lparr>total = total b + sum_list (map timeOf cs),
      count = count b + int (length (filter (\<lambda>c. c_responseTime c \<noteq> None) cs)),
      upCount = upCount b + int (length (filter c_success cs))\<rparr>"
  by (induction cs arbitrary: b) (auto simp: addToBucket_def timeOf_def Let_def)

text \<open>
  \<open>mathRoundDiv p q\<close> is the integer nearest to \<open>p / q\<close>, the upper one of two.
\<close>

lemma mathRoundDiv_nearest:
  "0 < q \<Longrightarrow> 2 * q * mathRoundDiv p q \<le> 2 * p + q \<and> 2 * p + q < 2 * q * (mathRoundDiv p q + 1)"
proof -
  assume q: "0 < q"
  have "2 * q * ((2 * p + q) div (2 * q)) + (2 * p + q) mod (2 * q) = 2 * p + q"
    by simp
  moreover have "0 \<le> (2 * p + q) mod (2 * q)" "(2 * p + q) mod (2 * q) < 2 * q"
    using q by simp_all
  ultimately show ?thesis
    by (simp add: mathRoundDiv_def algebra_simps)
qed

lemma map_of_constant: "k \<in> set ks \<Longrightarrow> map_of (map (\<lambda>k. (k, v)) ks) k = Some v"
  by (induction ks) auto

lemma lookupChecks_own: "map_of store nm = Some cs \<Longrightarrow> lookupChecks nm store = Checks cs"
  by (simp add: lookupChecks_def)

text \<open>
  For a name that is not the name of an inherited member, \<open>data.checks[name] || []\<close> is
  what \<open>getChecks\<close> above returns.
\<close>

lemma lookupChecks_getChecks:
  assumes "nm \<notin> fst ` set objectPrototype"
  shows "lookupChecks nm store = Checks (getChecks nm store)"
proof -
  from assms have "map_of objectPrototype nm = None"
    by (simp add: map_of_eq_None_iff)
  then show ?thesis
    by (simp add: lookupChecks_def getChecks_def split: option.splits)
qed

lemma getHourlyAverages_eq:
  assumes "lookupChecks nm store = Checks cs" and "cs \<noteq> []"
  shows "getHourlyAverages nm hours now store =
     Inr (map (\<lambda>k. toAverage k (fold addToBucket (inHour k cs) emptyBucket))
            (rev (hourKeys now hours)))"
proof -
  let ?init = "map (\<lambda>k. (k, emptyBucket)) (hourKeys now hours)"
  let ?filled = "fold fillBucket cs ?init"
  have keys: "map fst ?filled = hourKeys now hours"
    by (simp add: keys_fold_fillBucket comp_def)
  have look: "map_of ?filled k = Some (fold addToBucket (inHour k cs) emptyBucket)"
    if "k \<in> set (hourKeys now hours)" for k
    using that by (simp add: map_of_fold_fillBucket map_of_constant inHour_def)
  have "getHourlyAverages nm hours now store =
      Inr (map (\<lambda>k. toAverage k (case map_of ?filled k of None \<Rightarrow> emptyBucket | Some b \<Rightarrow> b))
             (rev (hourKeys now hours)))"
    using assms by (simp add: getHourlyAverages_def Let_def initial_buckets keys sort_hourKeys)
  also have "map (\<lambda>k. toAverage k (case map_of ?filled k of None \<Rightarrow> emptyBucket | Some b \<Rightarrow> b))
             (rev (hourKeys now hours)) =
      map (\<lambda>k. toAverage k (fold addToBucket (inHour k cs) emptyBucket))
        (rev (hourKeys now hours))"
    by (rule map_cong) (simp_all add: look)
  finally show ?thesis .
qed

lemma toAverage_all_timed:
  assumes "\<forall>c \<in> set cs. c_responseTime c \<noteq> None"
  shows "toAverage k (fold addToBucket cs emptyBucket) =
     \<lparr>hour = k, avgResponseTime = meanOf cs, uptime = percentUp cs,
      checkCount = int (length cs)\<rparr>"
proof -
  have "filter (\<lambda>c. c_responseTime c \<noteq> None) cs = cs"
    using assms by (simp add: filter_id_conv)
  then show ?thesis
    by (simp add: toAverage_def fold_addToBucket emptyBucket_def meanOf_def percentUp_def)
qed

text \<open>
  The quotients are those of the code, in double precision. 23 successful checks of 40
  are 57.5 percent; \<open>23 / 40\<close> is the double just below 0.575 and its product with 100 the
  double just below 57.5, which \<open>Math.round\<close> takes to 57, where the exact quotient
  rounds to 58. A mean of 150.5 is exact and is rounded to 151.
\<close>

lemma uptime_23_of_40:
  "mathRound (jsTimes (jsDivide 23 40) 100) = 57 \<and> mathRoundDiv (23 * 100) 40 = 58"
  by code_simp

lemma rounded_quotients:
  "mathRound (jsDivide 301 2) = 151"
  "mathRound (jsTimes (jsDivide 1 2) 100) = 50"
  "mathRound (jsDivide 50 1) = 50"
  "mathRound (jsTimes (jsDivide 1 1) 100) = 100"
  "mathRound (jsDivide 4000 40) = 100"
  by code_simp+

text \<open>
  C4, as amended. For a target whose name finds a log in the store, or nothing at all,
  and not a member inherited from \<open>Object.prototype\<close>: when the log holds at least one
  check, \<open>getHourlyAverages\<close> returns one bucket for each of the \<open>hours\<close> clock hours that
  end with the hour of the current time, oldest first, also for the hours without data.
  A bucket whose checks all carry a response time reports the number of its checks, their
  mean response time and the percentage of them that succeeded, each as the code computes
  it in double precision and rounds it with \<open>Math.round\<close>, and no average and no uptime
  when it contains no check. For a target without any stored check the result is the
  empty list, whatever the number of hours.
\<close>

theorem hourly_averages_per_hour:
  assumes "lookupChecks nm store = Checks cs"
  shows "(cs = [] \<longrightarrow> getHourlyAverages nm hours now store = Inr []) \<and>
   (cs \<noteq> [] \<longrightarrow>
      (\<exists>avgs. getHourlyAverages nm hours now store = Inr avgs \<and>
         map hour avgs = rev (hourKeys now hours) \<and>
         length avgs = nat hours \<and>
         (\<forall>a \<in> set avgs.
            (\<forall>c \<in> set (inHour (hour a) cs). c_responseTime c \<noteq> None) \<longrightarrow>
              checkCount a = int (length (inHour (hour a) cs)) \<and>
              avgResponseTime a = meanOf (inHour (hour a) cs) \<and>
              uptime a = percentUp (inHour (hour a) cs))))"
proof (intro conjI impI)
  assume "cs = []"
  with assms show "getHourlyAverages nm hours now store = Inr []"
    by (simp add: getHourlyAverages_def)
next
  assume ne: "cs \<noteq> []"
  let ?avgs = "map (\<lambda>k. toAverage k (fold addToBucket (inHour k cs) emptyBucket))
                 (rev (hourKeys now hours))"
  have eq: "getHourlyAverages nm hours now store = Inr ?avgs"
    using assms ne by (rule getHourlyAverages_eq)
  have keys: "map hour ?avgs = rev (hourKeys now hours)"
    by (simp add: comp_def toAverage_def)
  have len: "length ?avgs = nat hours"
    by (simp add: hourKeys_def)
  have each: "\<forall>a \<in> set ?avgs.
         (\<forall>c \<in> set (inHour (hour a) cs). c_responseTime c \<noteq> None) \<longrightarrow>
           checkCount a = int (length (inHour (hour a) cs)) \<and>
           avgResponseTime a = meanOf (inHour (hour a) cs) \<and>
           uptime a = percentUp (inHour (hour a) cs)"
  proof (intro ballI impI)
    fix a
    assume a: "a \<in> set ?avgs"
      and timed: "\<forall>c \<in> set (inHour (hour a) cs). c_responseTime c \<noteq> None"
    from a obtain k where
      k: "a = toAverage k (fold addToBucket (inHour k cs) emptyBucket)"
      by auto
    then have h: "hour a = k" by (simp add: toAverage_def)
    from timed h have "a = \<lparr>hour = k, avgResponseTime = meanOf (inHour k cs),
        uptime = percentUp (inHour k cs),
        checkCount = int (length (inHour k cs))\<rparr>"
      unfolding k by (intro toAverage_all_timed) simp
    with h show "checkCount a = int (length (inHour (hour a) cs)) \<and>
           avgResponseTime a = meanOf (inHour (hour a) cs) \<and>
           uptime a = percentUp (inHour (hour a) cs)"
      by simp
  qed
  from eq keys len each
  show "\<exists>avgs. getHourlyAverages nm hours now store = Inr avgs \<and>
         map hour avgs = rev (hourKeys now hours) \<and>
         length avgs = nat hours \<and>
         (\<forall>a \<in> set avgs.
            (\<forall>c \<in> set (inHour (hour a) cs). c_responseTime c \<noteq> None) \<longrightarrow>
              checkCount a = int (length (inHour (hour a) cs)) \<and>
              avgResponseTime a = meanOf (inHour (hour a) cs) \<and>
              uptime a = percentUp (inHour (hour a) cs))"
    by blast
qed

text \<open>
  C4, as claimed, fails for a target without stored checks: asked for 3 hours, the result
  has no bucket at all instead of three buckets without data.
\<close>

theorem hourly_averages_no_checks_counterexample:
  "getHourlyAverages ''C'' 3 10799999 hourlyStore = Inr []"
  by (simp add: getHourlyAverages_def lookupChecks_def hourlyStore_def objectPrototype_def)

text \<open>
  A name that finds an inherited member: a function of length 0 passes for an empty log,
  every other member makes the loop over the checks throw.
\<close>

lemma getHourlyAverages_inherited:
  "getHourlyAverages ''toString'' 3 10799999 hourlyStore = Inr []"
  "getHourlyAverages ''constructor'' 3 10799999 hourlyStore = Inl TypeError"
  "getHourlyAverages ''__proto__'' 3 10799999 hourlyStore = Inl TypeError"
  by (simp_all add: getHourlyAverages_def lookupChecks_def hourlyStore_def objectPrototype_def)

lemma hourly_example_keys: "rev (hourKeys 10799999 3) = [0, 3600000, 7200000]"
  by (simp add: hourKeys_def hourStartOf_def hourMs_def upt_rec)

lemma hourly_example:
  "getHourlyAverages ''A'' 3 10799999 hourlyStore =
     Inr [\<lparr>hour = 0, avgResponseTime = Some 151, uptime = Some 50, checkCount = 2\<rparr>,
          \<lparr>hour = 3600000, avgResponseTime = None, uptime = None, checkCount = 0\<rparr>,
          \<lparr>hour = 7200000, avgResponseTime = Some 50, uptime = Some 100, checkCount = 1\<rparr>]"
proof -
  have "lookupChecks ''A'' hourlyStore = Checks (getChecks ''A'' hourlyStore)"
    and "getChecks ''A'' hourlyStore \<noteq> []"
    by (simp_all add: lookupChecks_def getChecks_def hourlyStore_def)
  from getHourlyAverages_eq [OF this, of 3 10799999] show ?thesis
    unfolding hourly_example_keys
    by (simp add: getChecks_def hourlyStore_def mkCheck_def inHour_def hourStartOf_def hourMs_def
        addToBucket_def emptyBucket_def toAverage_def rounded_quotients)
qed

text \<open>The hour of 40 checks of which 23 succeeded is reported with an uptime of 57.\<close>

lemma forty_example:
  "getHourlyAverages ''A'' 1 3599999 [(''A'', fortyChecks)] =
     Inr [\<lparr>hour = 0, avgResponseTime = Some 100, uptime = Some 57, checkCount = 40\<rparr>]"
  by code_simp

theorem hourly_averages_per_hour_witness:
  "getHourlyAverages ''A'' 3 10799999 hourlyStore =
     Inr [\<lparr>hour = 0, avgResponseTime = Some 151, uptime = Some 50, checkCount = 2\<rparr>,
          \<lparr>hour = 3600000, avgResponseTime = None, uptime = None, checkCount = 0\<rparr>,
          \<lparr>hour = 7200000, avgResponseTime = Some 50, uptime = Some 100, checkCount = 1\<rparr>] \<and>
   meanOf (inHour 0 (getChecks ''A'' hourlyStore)) = Some 151 \<and>
   percentUp (inHour 0 (getChecks ''A'' hourlyStore)) = Some 50 \<and>
   meanOf (inHour 3600000 (getChecks ''A'' hourlyStore)) = None \<and>
   percentUp (inHour 3600000 (getChecks ''A'' hourlyStore)) = None \<and>
   getHourlyAverages ''C'' 3 10799999 hourlyStore = Inr []"
proof -
  let ?cs = "getChecks ''A'' hourlyStore"
  let ?first = "\<lparr>hour = 0, avgResponseTime = Some 151, uptime = Some 50, checkCount = 2\<rparr>"
  let ?second = "\<lparr>hour = 3600000, avgResponseTime = None, uptime = None, checkCount = 0\<rparr>"
  have at_A: "lookupChecks ''A'' hourlyStore = Checks ?cs"
    and at_C: "lookupChecks ''C'' hourlyStore = Checks []"
    by (simp_all add: lookupChecks_def getChecks_def hourlyStore_def objectPrototype_def)
  have ne: "?cs \<noteq> []"
    by (simp add: getChecks_def hourlyStore_def)
  have timed: "\<forall>c \<in> set (inHour k ?cs). c_responseTime c \<noteq> None" for k
    by (simp add: getChecks_def hourlyStore_def inHour_def mkCheck_def)
  from hourly_averages_per_hour [OF at_A, of 3 10799999] ne obtain avgs where
    avgs: "getHourlyAverages ''A'' 3 10799999 hourlyStore = Inr avgs"
    and each: "\<forall>a \<in> set avgs.
       (\<forall>c \<in> set (inHour (hour a) ?cs). c_responseTime c \<noteq> None) \<longrightarrow>
         avgResponseTime a = meanOf (inHour (hour a) ?cs) \<and>
         uptime a = percentUp (inHour (hour a) ?cs)"
    by blast
  from avgs have "avgs = [?first, ?second,
      \<lparr>hour = 7200000, avgResponseTime = Some 50, uptime = Some 100, checkCount = 1\<rparr>]"
    by (simp add: hourly_example)
  then have mem: "?first \<in> set avgs" "?second \<in> set avgs"
    by simp_all
  from each mem(1) timed [of "hour ?first"]
  have "avgResponseTime ?first = meanOf (inHour (hour ?first) ?cs) \<and>
        uptime ?first = percentUp (inHour (hour ?first) ?cs)"
    by blast
  then have first: "meanOf (inHour 0 ?cs) = Some 151" "percentUp (inHour 0 ?cs) = Some 50"
    by simp_all
  from each mem(2) timed [of "hour ?second"]
  have "avgResponseTime ?second = meanOf (inHour (hour ?second) ?cs) \<and>
        uptime ?second = percentUp (inHour (hour ?second) ?cs)"
    by blast
  then have second: "meanOf (inHour 3600000 ?cs) = None" "percentUp (inHour 3600000 ?cs) = None"
    by simp_all
  from hourly_averages_per_hour [OF at_C, of 3 10799999]
  have "getHourlyAverages ''C'' 3 10799999 hourlyStore = Inr []" by blast
  with hourly_example first second show ?thesis by blast
qed

end
